theory Spec2Isabelle
  imports Complex_Main "HOL-Library.Log_Nat"
begin

section \<open>The Analysis Gateway: \<open>src/app/api/analyze/route.ts\<close>\<close>

subsection \<open>The regular expression of the extraction step\<close>

text \<open>
  The handler extracts the JSON text with \<^verbatim>\<open>content.match(/\{[\s\S]*\}/)\<close>. The pattern
  is a sequence of three pieces: the literal \<open>{\<close>, a greedy star over the character class
  \<open>[\s\S]\<close>, and the literal \<open>}\<close>. The matcher below is the backtracking matcher of
  ECMAScript restricted to these constructs: a piece is one atom or a greedy star of an
  atom, a star tries the longest repetition first and gives characters back one at a time,
  and \<open>String.prototype.match\<close> (no \<open>g\<close> flag) returns the match at the leftmost start
  position that has one.
\<close>

datatype atom = Lit char | Class "char \<Rightarrow> bool"

datatype piece = One atom | Star atom

type_synonym regex = "piece list"

fun atom_matches :: "atom \<Rightarrow> char \<Rightarrow> bool" where
  "atom_matches (Lit c) x = (x = c)"
| "atom_matches (Class p) x = p x"

text \<open>
  \<open>match_here r s\<close> is the text matched by \<open>r\<close> at the start of \<open>s\<close>, if there is a match.
\<close>

fun match_here :: "regex \<Rightarrow> string \<Rightarrow> string option" where
  "match_here [] s = Some []"
| "match_here (One a # r) [] = None"
| "match_here (One a # r) (x # xs) =
     (if atom_matches a x then map_option (Cons x) (match_here r xs) else None)"
| "match_here (Star a # r) [] = match_here r []"
| "match_here (Star a # r) (x # xs) =
     (if atom_matches a x
      then (case match_here (Star a # r) xs of
              Some m \<Rightarrow> Some (x # m)
            | None \<Rightarrow> match_here r (x # xs))
      else match_here r (x # xs))"

text \<open>\<open>str.match(r)\<close>: the leftmost match, \<open>None\<close> for JavaScript's \<open>null\<close>.\<close>

fun js_match :: "regex \<Rightarrow> string \<Rightarrow> string option" where
  "js_match r [] = match_here r []"
| "js_match r (x # xs) =
     (case match_here r (x # xs) of
        Some m \<Rightarrow> Some m
      | None \<Rightarrow> js_match r xs)"

text \<open>
  \<open>\s\<close> on the ASCII range: tab, line feed, vertical tab, form feed, carriage return and
  space. \<open>\S\<close> is its complement, so the class \<open>[\s\S]\<close> accepts every character whatever
  \<open>\s\<close> contains.
\<close>

definition is_space :: "char \<Rightarrow> bool" where
  "is_space c = (c \<in> {CHR 0x09, CHR 0x0A, CHR 0x0B, CHR 0x0C, CHR 0x0D, CHR '' ''})"

definition brace_regex :: regex where
  "brace_regex =
     [One (Lit CHR ''{''), Star (Class (\<lambda>c. is_space c \<or> \<not> is_space c)), One (Lit CHR ''}'')]"

definition jsonMatch :: "string \<Rightarrow> string option" where
  "jsonMatch content = js_match brace_regex content"

subsection \<open>The request handler\<close>

text \<open>
  The body of a request is the JSON object \<open>{ image, apiKey }\<close>; a field that is absent
  is \<open>None\<close>. The fields are called \<open>req_image\<close> and \<open>req_apiKey\<close> here (\<open>image\<close> is a
  constant of HOL, \<open>apiKey\<close> a field of the tracker's state below). The handler reads the
  body with \<open>await request.json()\<close> inside its \<open>try\<close> statement: what it gets is the object
  (\<open>Inr\<close>), or an error with a message (\<open>Inl\<close>) when the body is not JSON or is not an
  object to take fields from.
\<close>

record analyze_request =
  req_image :: "string option"
  req_apiKey :: "string option"

text \<open>\<open>!v\<close> for a string that may be missing: \<open>undefined\<close> and the empty string are falsy.\<close>

definition falsy :: "string option \<Rightarrow> bool" where
  "falsy v = (case v of None \<Rightarrow> True | Some t \<Rightarrow> t = [])"

text \<open>
  A response is \<open>NextResponse.json(body, { status })\<close>, with status 200 when none is given.
  The body is the error object \<open>{ error: message }\<close> or the parsed analysis result.
\<close>

datatype 'j body = ErrorBody string | JsonBody 'j

record 'j response =
  status :: nat
  body :: "'j body"

text \<open>
  The one call to the upstream model, \<open>openai.chat.completions.create\<close>: the handler sends
  the caller's key and the image (with the fixed model name, the fixed prompt and the token
  budget), and the call either throws an error with a message or returns a completion whose
  \<open>choices[0]?.message?.content\<close> is a string or missing. The upstream model is a parameter
  of the handler, and so is the built-in \<open>JSON.parse\<close>, which returns a value or throws a
  \<open>SyntaxError\<close> with a message (\<open>Inl\<close>).
\<close>

record upstream_request =
  model :: string
  api_key :: string
  image_url :: string
  max_tokens :: nat

datatype upstream_result = Throws string | Completion "string option"

text \<open>Lines 81 to 92: the content check, the extraction and the parse. \<open>Inl\<close> is a throw.\<close>

definition parse_content :: "(string \<Rightarrow> string + 'j) \<Rightarrow> string option \<Rightarrow> string + 'j" where
  "parse_content JSON_parse content =
     (if falsy content then Inl ''No response from OpenAI''
      else (case jsonMatch (the content) of
              None \<Rightarrow> Inl ''Invalid response format from OpenAI''
            | Some m \<Rightarrow> JSON_parse m))"

text \<open>The \<open>catch\<close> block: status 500 with \<open>error.message || 'Failed to analyze image'\<close>.\<close>

definition catch_error :: "string \<Rightarrow> 'j response" where
  "catch_error message =
     \<lparr>status = 500,
      body = ErrorBody (if message = [] then ''Failed to analyze image'' else message)\<rparr>"

text \<open>
  The handler returns its response together with the list of upstream calls it made.
\<close>

definition POST ::
  "(upstream_request \<Rightarrow> upstream_result) \<Rightarrow> (string \<Rightarrow> string + 'j)
     \<Rightarrow> string + analyze_request \<Rightarrow> 'j response \<times> upstream_request list" where
  "POST upstream JSON_parse request_json =
     (case request_json of
        Inl message \<Rightarrow> (catch_error message, [])
      | Inr request \<Rightarrow>
          if falsy (req_apiKey request)
          then (\<lparr>status = 400, body = ErrorBody ''OpenAI API key is required''\<rparr>, [])
          else if falsy (req_image request)
          then (\<lparr>status = 400, body = ErrorBody ''Image is required''\<rparr>, [])
          else
            let call = \<lparr>model = ''gpt-4o'', api_key = the (req_apiKey request),
                        image_url = the (req_image request), max_tokens = 1000\<rparr>
            in (case upstream call of
                  Throws message \<Rightarrow> (catch_error message, [call])
                | Completion content \<Rightarrow>
                    (case parse_content JSON_parse content of
                       Inl message \<Rightarrow> (catch_error message, [call])
                     | Inr analysisResult \<Rightarrow>
                         (\<lparr>status = 200, body = JsonBody analysisResult\<rparr>, [call]))))"

text \<open>
  A message mentions a word when the word occurs in it, letter case apart.
\<close>

definition lower :: "char \<Rightarrow> char" where
  "lower c =
     (let n = (of_char c :: nat) in if 65 \<le> n \<and> n \<le> 90 then char_of (n + 32) else c)"

fun contains :: "string \<Rightarrow> string \<Rightarrow> bool" where
  "contains [] w = (w = [])"
| "contains (c # cs) w = (take (length w) (c # cs) = w \<or> contains cs w)"

definition mentions :: "string \<Rightarrow> string \<Rightarrow> bool" where
  "mentions message w = contains (map lower message) (map lower w)"

text \<open>
  A text has a brace-delimited substring when it has a \<open>{\<close> with a \<open>}\<close> somewhere after it.
\<close>

definition has_brace_span :: "string \<Rightarrow> bool" where
  "has_brace_span t = (\<exists>pre mid post. t = pre @ CHR ''{'' # mid @ CHR ''}'' # post)"

section \<open>The Session Tracker: the page component \<open>Home\<close>\<close>

subsection \<open>JavaScript numbers\<close>

text \<open>
  A JavaScript number is an IEEE 754 binary64 value: \<open>NaN\<close>, one of the two infinities, or a
  finite value, which is modelled by the rational it denotes. The sign of zero is outside
  the model.

  An arithmetic operation on finite numbers is the exact operation followed by rounding to
  the nearest binary64 value, ties to the even significand. \<open>exponent x\<close> is the binary
  exponent \<open>\<lfloor>log\<^sub>2 \<bar>x\<bar>\<rfloor>\<close> of a number other than zero; a binary64 value has 53
  significant bits, so the values around \<open>x\<close> are the multiples of
  \<open>2 powi (exponent x - 52)\<close>, and of \<open>2 powi (- 1074)\<close> below the normal range. \<open>round64\<close>
  rounds to such a multiple; a rounded value of magnitude \<open>2 ^ 1024\<close> or more overflows to
  the infinity of its sign.
\<close>

datatype number = NaN | NegInfinity | Num rat | PosInfinity

definition exponent :: "rat \<Rightarrow> int" where
  "exponent x =
     (if 1 \<le> \<bar>x\<bar> then bitlen \<lfloor>\<bar>x\<bar>\<rfloor> - 1 else - bitlen (\<lceil>1 / \<bar>x\<bar>\<rceil> - 1))"

definition round_half_even :: "rat \<Rightarrow> int" where
  "round_half_even x =
     (let f = \<lfloor>x\<rfloor>; d = x - of_int f
      in if d < 1 / 2 then f else if 1 / 2 < d then f + 1 else if even f then f else f + 1)"

definition round64 :: "rat \<Rightarrow> rat" where
  "round64 x =
     (if x = 0 then 0
      else let q = 2 powi (max (exponent x) (- 1022) - 52)
           in q * of_int (round_half_even (x / q)))"

definition overflow :: rat where
  "overflow = of_int (2 ^ 1024)"

definition binary64 :: "rat \<Rightarrow> number" where
  "binary64 x =
     (let y = round64 x
      in if overflow \<le> y then PosInfinity
         else if y \<le> - overflow then NegInfinity
         else Num y)"

text \<open>
  The four operators. \<open>NaN\<close> propagates; the sum of the two opposite infinities, the
  difference of two equal ones, the product of an infinity and zero, the quotient of two
  infinities and \<open>0 / 0\<close> are \<open>NaN\<close>; any other number divided by zero is the infinity with
  the sign of the dividend.
\<close>

fun js_add :: "number \<Rightarrow> number \<Rightarrow> number" where
  "js_add NaN y = NaN"
| "js_add x NaN = NaN"
| "js_add PosInfinity NegInfinity = NaN"
| "js_add NegInfinity PosInfinity = NaN"
| "js_add PosInfinity y = PosInfinity"
| "js_add x PosInfinity = PosInfinity"
| "js_add NegInfinity y = NegInfinity"
| "js_add x NegInfinity = NegInfinity"
| "js_add (Num x) (Num y) = binary64 (x + y)"

fun js_sub :: "number \<Rightarrow> number \<Rightarrow> number" where
  "js_sub NaN y = NaN"
| "js_sub x NaN = NaN"
| "js_sub PosInfinity PosInfinity = NaN"
| "js_sub NegInfinity NegInfinity = NaN"
| "js_sub PosInfinity y = PosInfinity"
| "js_sub x PosInfinity = NegInfinity"
| "js_sub NegInfinity y = NegInfinity"
| "js_sub x NegInfinity = PosInfinity"
| "js_sub (Num x) (Num y) = binary64 (x - y)"

text \<open>The sign of a number other than \<open>NaN\<close> and zero: true when it is positive.\<close>

fun positive :: "number \<Rightarrow> bool" where
  "positive PosInfinity = True"
| "positive (Num x) = (0 < x)"
| "positive v = False"

fun is_zero :: "number \<Rightarrow> bool" where
  "is_zero (Num x) = (x = 0)"
| "is_zero v = False"

fun is_infinite :: "number \<Rightarrow> bool" where
  "is_infinite PosInfinity = True"
| "is_infinite NegInfinity = True"
| "is_infinite v = False"

fun js_mul :: "number \<Rightarrow> number \<Rightarrow> number" where
  "js_mul NaN y = NaN"
| "js_mul x NaN = NaN"
| "js_mul (Num x) (Num y) = binary64 (x * y)"
| "js_mul x y =
     (if is_zero x \<or> is_zero y then NaN
      else if positive x = positive y then PosInfinity else NegInfinity)"

fun js_div :: "number \<Rightarrow> number \<Rightarrow> number" where
  "js_div NaN y = NaN"
| "js_div x NaN = NaN"
| "js_div (Num x) (Num y) =
     (if y = 0 then (if x = 0 then NaN else if 0 < x then PosInfinity else NegInfinity)
      else binary64 (x / y))"
| "js_div (Num x) y = Num 0"
| "js_div x y =
     (if is_infinite y then NaN
      else if positive x = (is_zero y \<or> positive y) then PosInfinity else NegInfinity)"

text \<open>
  \<open>Math.round\<close>: the nearest integer, a tie going up; \<open>NaN\<close> and the infinities are returned
  as they are.
\<close>

fun Math_round :: "number \<Rightarrow> number" where
  "Math_round (Num x) = Num (of_int \<lfloor>x + 1 / 2\<rfloor>)"
| "Math_round v = v"

fun Math_min :: "number \<Rightarrow> number \<Rightarrow> number" where
  "Math_min NaN y = NaN"
| "Math_min x NaN = NaN"
| "Math_min NegInfinity y = NegInfinity"
| "Math_min x NegInfinity = NegInfinity"
| "Math_min PosInfinity y = y"
| "Math_min x PosInfinity = x"
| "Math_min (Num x) (Num y) = Num (min x y)"

fun Math_max :: "number \<Rightarrow> number \<Rightarrow> number" where
  "Math_max NaN y = NaN"
| "Math_max x NaN = NaN"
| "Math_max PosInfinity y = PosInfinity"
| "Math_max x PosInfinity = PosInfinity"
| "Math_max NegInfinity y = y"
| "Math_max x NegInfinity = x"
| "Math_max (Num x) (Num y) = Num (max x y)"

text \<open>The comparison \<open>x <= y\<close>, which is false as soon as one side is \<open>NaN\<close>.\<close>

fun js_le :: "number \<Rightarrow> number \<Rightarrow> bool" where
  "js_le NaN y = False"
| "js_le x NaN = False"
| "js_le NegInfinity y = True"
| "js_le x PosInfinity = True"
| "js_le (Num x) (Num y) = (x \<le> y)"
| "js_le x y = False"

text \<open>
  A value that is used as a number without having been checked: what a field of a parsed
  JSON body can be, short of a string, an array or an object. \<open>ToNumber\<close> is the conversion
  that \<open>+\<close> applies to such an operand: \<open>undefined\<close> (a field that is missing) becomes \<open>NaN\<close>,
  \<open>null\<close> becomes 0, \<open>true\<close> 1 and \<open>false\<close> 0. (With a string, an array or an object as an
  operand, \<open>+\<close> concatenates strings and its result is not a number; such operands are not
  values of this type.)
\<close>

datatype js_value = Undefined | Null | Bool bool | Number number

fun ToNumber :: "js_value \<Rightarrow> number" where
  "ToNumber Undefined = NaN"
| "ToNumber Null = Num 0"
| "ToNumber (Bool b) = Num (if b then 1 else 0)"
| "ToNumber (Number n) = n"

subsection \<open>The state of the component\<close>

datatype fitness_goal = Lose | Maintain | Gain

record FoodItem =
  name :: string
  quantity :: string
  protein :: rat

text \<open>
  The callback stores \<open>data.totalProtein\<close> as it comes, so the \<open>totalProtein\<close> of a stored
  meal is a value that has not been checked. The items of \<open>foods\<close> are only displayed.
\<close>

record MealAnalysis =
  foods :: "FoodItem list"
  totalProtein :: js_value
  timestamp :: string

text \<open>
  A selected \<open>File\<close>, with the data URL that \<open>FileReader.readAsDataURL\<close> produces for it.
\<close>

record File =
  file_name :: string
  file_dataURL :: string

text \<open>One field for each \<open>useState\<close> of the component, with the source's names.\<close>

record state =
  apiKey :: string
  weight :: number
  goal :: fitness_goal
  dailyGoal :: number
  selectedFile :: "File option"
  previewUrl :: string
  analyzing :: bool
  currentAnalysis :: "MealAnalysis option"
  mealHistory :: "MealAnalysis list"
  dailyTotal :: number
  error :: string

definition initial :: state where
  "initial =
     \<lparr>apiKey = [], weight = Num 70, goal = Maintain, dailyGoal = Num 112,
      selectedFile = None, previewUrl = [], analyzing = False, currentAnalysis = None,
      mealHistory = [], dailyTotal = Num 0, error = []\<rparr>"

subsection \<open>The two effects\<close>

text \<open>
  The numeric literals \<open>2.0\<close>, \<open>1.6\<close> and \<open>1.2\<close> of the source denote the binary64 values
  nearest to them.
\<close>

definition multiplier :: "fitness_goal \<Rightarrow> number" where
  "multiplier g =
     (if g = Gain then binary64 2.0 else if g = Maintain then binary64 1.6 else binary64 1.2)"

definition goalEffect :: "state \<Rightarrow> state" where
  "goalEffect s = s\<lparr>dailyGoal := Math_round (js_mul (weight s) (multiplier (goal s)))\<rparr>"

text \<open>
  In the second effect the operand \<open>meal.totalProtein\<close> of \<open>+\<close> is an unchecked value,
  which \<open>+\<close> converts to a number.
\<close>

definition totalEffect :: "state \<Rightarrow> state" where
  "totalEffect s =
     s\<lparr>dailyTotal :=
         foldl (\<lambda>sum meal. js_add sum (ToNumber (totalProtein meal))) (Num 0) (mealHistory s)\<rparr>"

text \<open>
  React runs an effect after the first render and after every render in which one of its
  dependencies has changed. Both effects run when the component mounts. An event below is
  the handler followed by the effects whose dependencies the handler has changed; a write
  to \<open>dailyGoal\<close> or \<open>dailyTotal\<close> by an effect changes no dependency and starts no
  further effect.
\<close>

definition mount :: state where
  "mount = totalEffect (goalEffect initial)"

subsection \<open>The event handlers\<close>

definition onApiKeyChange :: "string \<Rightarrow> state \<Rightarrow> state" where
  "onApiKeyChange k s = s\<lparr>apiKey := k\<rparr>"

text \<open>
  \<open>setWeight(Number(e.target.value))\<close>: the handler's argument is the number that
  \<open>Number\<close> makes of the text of the weight field (the empty field gives \<open>0\<close>). Setting a
  state variable to the value it has starts no render.
\<close>

definition onWeightChange :: "number \<Rightarrow> state \<Rightarrow> state" where
  "onWeightChange w s = (if w = weight s then s else goalEffect (s\<lparr>weight := w\<rparr>))"

definition onGoalChange :: "fitness_goal \<Rightarrow> state \<Rightarrow> state" where
  "onGoalChange g s = (if g = goal s then s else goalEffect (s\<lparr>goal := g\<rparr>))"

text \<open>
  \<open>handleFileSelect\<close>: the event carries the first chosen file, if there is one, with the
  object URL that \<open>URL.createObjectURL\<close> returns for it.
\<close>

definition handleFileSelect :: "(File \<times> string) option \<Rightarrow> state \<Rightarrow> state" where
  "handleFileSelect chosen s =
     (case chosen of
        None \<Rightarrow> s
      | Some (f, url) \<Rightarrow>
          s\<lparr>selectedFile := Some f, previewUrl := url, error := [], currentAnalysis := None\<rparr>)"

text \<open>
  \<open>analyzeImage\<close> up to its return. After the guard it sets \<open>analyzing\<close> and clears
  \<open>error\<close>; the \<open>try\<close> block creates the reader, starts \<open>readAsDataURL\<close> and assigns the
  \<open>onloadend\<close> callback, none of which throws, so the \<open>catch\<close> block is passed over, and
  the \<open>finally\<close> block resets \<open>analyzing\<close> before the function returns. The second
  component of the result tells whether the callback has been installed.
\<close>

definition analyzeImage :: "state \<Rightarrow> state \<times> bool" where
  "analyzeImage s =
     (if selectedFile s = None \<or> apiKey s = []
      then (s\<lparr>error := ''Please provide an OpenAI API key and select an image''\<rparr>, False)
      else (s\<lparr>analyzing := True, error := [], analyzing := False\<rparr>, True))"

text \<open>
  What \<open>fetch('/api/analyze', ...)\<close> and \<open>response.json()\<close> give the callback: a promise
  that is rejected with a message (the request failed, or a body is not JSON; the body
  \<open>null\<close>, whose fields cannot be read, makes the callback throw in the same way), a response
  that is not \<open>ok\<close> with the \<open>error\<close> field of its body, or an \<open>ok\<close> response with the
  \<open>foods\<close> and \<open>totalProtein\<close> of its body. The callback checks neither field. \<open>foods\<close>
  is taken to be an array of food items, which the next render needs (with anything else
  that render throws and React unmounts the component, so that no state is left);
  \<open>totalProtein\<close> is any unchecked value, \<open>Undefined\<close> when the body has no such field.
\<close>

datatype fetch_result =
    FetchRejected string
  | ResponseNotOk "string option"
  | ResponseOk "FoodItem list" js_value

text \<open>
  The callback \<open>reader.onloadend\<close>, an \<open>async\<close> function: \<open>Inl\<close> is the error it throws, which
  rejects the promise it returns, \<open>Inr\<close> the state after its two state updates. \<open>now\<close> is
  \<open>new Date().toLocaleString()\<close>.
\<close>

definition onloadend :: "fetch_result \<Rightarrow> string \<Rightarrow> state \<Rightarrow> string + state" where
  "onloadend result now s =
     (case result of
        FetchRejected message \<Rightarrow> Inl message
      | ResponseNotOk e \<Rightarrow> Inl (if falsy e then ''Failed to analyze image'' else the e)
      | ResponseOk fs tp \<Rightarrow>
          let analysis = \<lparr>foods = fs, totalProtein = tp, timestamp = now\<rparr>
          in Inr (s\<lparr>currentAnalysis := Some analysis,
                    mealHistory := mealHistory s @ [analysis]\<rparr>))"

text \<open>
  The \<open>loadend\<close> event. The reader calls the callback as an event handler and drops the
  promise it returns: the callback runs after \<open>analyzeImage\<close> has returned, outside its
  \<open>try\<close> statement, so a rejection reaches no handler and leaves the state as it is. A
  fulfilled callback has changed \<open>mealHistory\<close>, and the total is computed again.
\<close>

definition loadend :: "fetch_result \<Rightarrow> string \<Rightarrow> state \<Rightarrow> state" where
  "loadend result now s =
     (case onloadend result now s of
        Inl message \<Rightarrow> s
      | Inr s' \<Rightarrow> totalEffect s')"

definition resetDay :: "state \<Rightarrow> state" where
  "resetDay s =
     s\<lparr>mealHistory := [], currentAnalysis := None, selectedFile := None, previewUrl := []\<rparr>"

text \<open>
  A click on the reset button: \<open>resetDay\<close>, then the total effect, since \<open>mealHistory\<close> is
  a new array.
\<close>

definition onResetClick :: "state \<Rightarrow> state" where
  "onResetClick s = totalEffect (resetDay s)"

subsection \<open>Values computed at each render\<close>

definition progressPercentage :: "state \<Rightarrow> number" where
  "progressPercentage s =
     Math_min (js_mul (js_div (dailyTotal s) (dailyGoal s)) (Num 100)) (Num 100)"

definition remaining :: "state \<Rightarrow> number" where
  "remaining s = Math_max (js_sub (dailyGoal s) (dailyTotal s)) (Num 0)"

subsection \<open>Reachable states\<close>

inductive reachable :: "state \<Rightarrow> bool" where
  mounted: "reachable mount"
| key: "reachable s \<Longrightarrow> reachable (onApiKeyChange k s)"
| weight: "reachable s \<Longrightarrow> reachable (onWeightChange w s)"
| goal: "reachable s \<Longrightarrow> reachable (onGoalChange g s)"
| select: "reachable s \<Longrightarrow> reachable (handleFileSelect chosen s)"
| analyze: "reachable s \<Longrightarrow> reachable (fst (analyzeImage s))"
| loaded: "reachable s \<Longrightarrow> reachable (loadend result now s)"
| reset: "reachable s \<Longrightarrow> reachable (onResetClick s)"

section \<open>JSON texts\<close>

text \<open>
  \<open>JSON.parse\<close> is a parameter of the handler. Where a concrete parser is needed, the one
  below stands for it: a recursive-descent parser of the JSON grammar (objects, arrays,
  strings with the two-character escapes, numbers, \<open>true\<close>, \<open>false\<close>, \<open>null\<close>, white space
  between tokens), which rejects everything else; \<open>\u\<close> escapes are not covered. A number
  becomes the binary64 value nearest to it, an object the list of its members in the order
  of the text. The recursion is on a fuel argument that starts above twice the length of
  the text.
\<close>

datatype json =
    JNull
  | JBool bool
  | JNumber number
  | JString string
  | JArray "json list"
  | JObject "(string \<times> json) list"

definition is_ws :: "char \<Rightarrow> bool" where
  "is_ws c = (c \<in> {CHR '' '', CHR 0x09, CHR 0x0A, CHR 0x0D})"

definition skip_ws :: "string \<Rightarrow> string" where
  "skip_ws s = dropWhile is_ws s"

definition digit_of :: "char \<Rightarrow> nat option" where
  "digit_of c = (let n = (of_char c :: nat) in if 48 \<le> n \<and> n \<le> 57 then Some (n - 48) else None)"

fun take_digits :: "string \<Rightarrow> nat list \<times> string" where
  "take_digits [] = ([], [])"
| "take_digits (c # cs) =
     (case digit_of c of
        None \<Rightarrow> ([], c # cs)
      | Some d \<Rightarrow> (case take_digits cs of (ds, rest) \<Rightarrow> (d # ds, rest)))"

definition decimal :: "nat list \<Rightarrow> nat" where
  "decimal ds = foldl (\<lambda>v d. 10 * v + d) 0 ds"

definition parse_fraction :: "string \<Rightarrow> (nat list \<times> string) option" where
  "parse_fraction s =
     (case s of
        [] \<Rightarrow> Some ([], [])
      | c # r \<Rightarrow>
          if c = CHR ''.''
          then (case take_digits r of (ds, rest) \<Rightarrow> if ds = [] then None else Some (ds, rest))
          else Some ([], s))"

definition parse_exponent :: "string \<Rightarrow> (int \<times> string) option" where
  "parse_exponent s =
     (case s of
        [] \<Rightarrow> Some (0, [])
      | c # r \<Rightarrow>
          if c = CHR ''e'' \<or> c = CHR ''E''
          then (let (sign, r1) =
                      (case r of
                         [] \<Rightarrow> (1, r)
                       | x # r' \<Rightarrow> if x = CHR ''+'' then (1, r')
                                  else if x = CHR ''-'' then (- 1, r') else (1, r))
                in case take_digits r1 of
                     (ds, rest) \<Rightarrow> if ds = [] then None else Some (sign * int (decimal ds), rest))
          else Some (0, s))"

definition parse_number :: "string \<Rightarrow> (rat \<times> string) option" where
  "parse_number s =
     (let (sign, s1) = (case s of
                          [] \<Rightarrow> (1, s)
                        | c # r \<Rightarrow> if c = CHR ''-'' then (- 1, r) else (1, s))
      in case take_digits s1 of
           (ip, s2) \<Rightarrow>
             if ip = [] \<or> (1 < length ip \<and> hd ip = 0) then None
             else (case parse_fraction s2 of
                     None \<Rightarrow> None
                   | Some (fp, s3) \<Rightarrow>
                       (case parse_exponent s3 of
                          None \<Rightarrow> None
                        | Some (e, s4) \<Rightarrow>
                            Some (sign * (of_nat (decimal ip) + of_nat (decimal fp) / 10 ^ length fp)
                                    * 10 powi e, s4))))"

definition unescape :: "char \<Rightarrow> char option" where
  "unescape c =
     (if c = CHR 0x22 then Some (CHR 0x22)
      else if c = CHR 0x5C then Some (CHR 0x5C)
      else if c = CHR ''/'' then Some (CHR ''/'')
      else if c = CHR ''b'' then Some (CHR 0x08)
      else if c = CHR ''f'' then Some (CHR 0x0C)
      else if c = CHR ''n'' then Some (CHR 0x0A)
      else if c = CHR ''r'' then Some (CHR 0x0D)
      else if c = CHR ''t'' then Some (CHR 0x09)
      else None)"

fun parse_chars :: "string \<Rightarrow> (string \<times> string) option" where
  "parse_chars [] = None"
| "parse_chars [c] = (if c = CHR 0x22 then Some ([], []) else None)"
| "parse_chars (c # e # r) =
     (if c = CHR 0x22 then Some ([], e # r)
      else if c = CHR 0x5C
      then (case unescape e of
              None \<Rightarrow> None
            | Some x \<Rightarrow> map_option (\<lambda>(t, rest). (x # t, rest)) (parse_chars r))
      else if (of_char c :: nat) < 32 then None
      else map_option (\<lambda>(t, rest). (c # t, rest)) (parse_chars (e # r)))"

fun parse_value :: "nat \<Rightarrow> string \<Rightarrow> (json \<times> string) option"
  and parse_elements :: "nat \<Rightarrow> string \<Rightarrow> (json list \<times> string) option"
  and parse_members :: "nat \<Rightarrow> string \<Rightarrow> ((string \<times> json) list \<times> string) option" where
  "parse_value 0 s = None"
| "parse_value (Suc n) s =
     (case skip_ws s of
        [] \<Rightarrow> None
      | c # r \<Rightarrow>
          if c = CHR ''{''
          then (if take 1 (skip_ws r) = ''}'' then Some (JObject [], drop 1 (skip_ws r))
                else map_option (\<lambda>(ms, rest). (JObject ms, rest)) (parse_members n r))
          else if c = CHR ''[''
          then (if take 1 (skip_ws r) = '']'' then Some (JArray [], drop 1 (skip_ws r))
                else map_option (\<lambda>(vs, rest). (JArray vs, rest)) (parse_elements n r))
          else if c = CHR 0x22
          then map_option (\<lambda>(t, rest). (JString t, rest)) (parse_chars r)
          else if take 4 (c # r) = ''true'' then Some (JBool True, drop 4 (c # r))
          else if take 5 (c # r) = ''false'' then Some (JBool False, drop 5 (c # r))
          else if take 4 (c # r) = ''null'' then Some (JNull, drop 4 (c # r))
          else map_option (\<lambda>(x, rest). (JNumber (binary64 x), rest)) (parse_number (c # r)))"
| "parse_elements 0 s = None"
| "parse_elements (Suc n) s =
     (case parse_value n s of
        None \<Rightarrow> None
      | Some (v, r) \<Rightarrow>
          (case skip_ws r of
             [] \<Rightarrow> None
           | c # r' \<Rightarrow>
               if c = CHR '','' then map_option (\<lambda>(vs, rest). (v # vs, rest)) (parse_elements n r')
               else if c = CHR '']'' then Some ([v], r')
               else None))"
| "parse_members 0 s = None"
| "parse_members (Suc n) s =
     (case skip_ws s of
        [] \<Rightarrow> None
      | q # r \<Rightarrow>
          if q \<noteq> CHR 0x22 then None
          else (case parse_chars r of
                  None \<Rightarrow> None
                | Some (k, r1) \<Rightarrow>
                    (case skip_ws r1 of
                       [] \<Rightarrow> None
                     | c # r2 \<Rightarrow>
                         if c \<noteq> CHR '':'' then None
                         else (case parse_value n r2 of
                                 None \<Rightarrow> None
                               | Some (v, r3) \<Rightarrow>
                                   (case skip_ws r3 of
                                      [] \<Rightarrow> None
                                    | d # r4 \<Rightarrow>
                                        if d = CHR '',''
                                        then map_option (\<lambda>(ms, rest). ((k, v) # ms, rest))
                                               (parse_members n r4)
                                        else if d = CHR ''}'' then Some ([(k, v)], r4)
                                        else None)))))"

definition JSON_parse_ref :: "string \<Rightarrow> string + json" where
  "JSON_parse_ref t =
     (case parse_value (Suc (2 * length t)) t of
        None \<Rightarrow> Inl ''Unexpected token in JSON''
      | Some (v, rest) \<Rightarrow>
          if skip_ws rest = [] then Inr v else Inl ''Unexpected token in JSON'')"

text \<open>The reply, the JSON text in it and the object the text denotes, for the example of
  the specification.\<close>

definition egg_reply :: string where
  "egg_reply =
     ''Sure! {\"foods\":[{\"name\":\"Egg\",\"quantity\":\"50g\",\"protein\":6}],\"totalProtein\":6} Enjoy!''"

definition egg_json :: string where
  "egg_json =
     ''{\"foods\":[{\"name\":\"Egg\",\"quantity\":\"50g\",\"protein\":6}],\"totalProtein\":6}''"

definition egg_object :: json where
  "egg_object =
     JObject [(''foods'', JArray [JObject [(''name'', JString ''Egg''),
                                           (''quantity'', JString ''50g''),
                                           (''protein'', JNumber (Num 6))]]),
              (''totalProtein'', JNumber (Num 6))]"

section \<open>The specification's formulas\<close>

text \<open>
  The multipliers as the specification lists them, and its \<open>round\<close>: the nearest integer,
  with a half rounded up.
\<close>

fun spec_multiplier :: "fitness_goal \<Rightarrow> rat" where
  "spec_multiplier Lose = 1.2"
| "spec_multiplier Maintain = 1.6"
| "spec_multiplier Gain = 2.0"

definition round_nearest :: "rat \<Rightarrow> int" where
  "round_nearest x = \<lfloor>x + 1 / 2\<rfloor>"

text \<open>
  The sum of a sequence of values in JavaScript arithmetic, added to \<open>0\<close> from left to
  right.
\<close>

definition js_sum :: "js_value list \<Rightarrow> number" where
  "js_sum vs = foldl (\<lambda>sum v. js_add sum (ToNumber v)) (Num 0) vs"

text \<open>A percentage lies in the interval from 0 to 100: \<open>0 <= v && v <= 100\<close>.\<close>

definition in_percent_range :: "number \<Rightarrow> bool" where
  "in_percent_range v = (js_le (Num 0) v \<and> js_le v (Num 100))"

section \<open>A state of the examples\<close>

text \<open>
  A state in which a meal can be submitted: after mounting, the user has typed a key and
  chosen a photo.
\<close>

definition ready :: state where
  "ready =
     handleFileSelect
       (Some (\<lparr>file_name = ''meal.jpg'', file_dataURL = ''data:image/jpeg;base64,AAAA''\<rparr>,
              ''blob:meal''))
       (onApiKeyChange ''sk-invalid'' mount)"

section \<open>Properties of the Gateway\<close>

subsection \<open>What the pattern matches\<close>

lemma tail_none:
  "CHR ''}'' \<notin> set s \<Longrightarrow> match_here [Star a, One (Lit CHR ''}'')] s = None"
  by (induction s) auto

lemma tail_some:
  assumes "\<And>c. atom_matches a c" and "CHR ''}'' \<notin> set post"
  shows "match_here [Star a, One (Lit CHR ''}'')] (mid @ CHR ''}'' # post) = Some (mid @ [CHR ''}''])"
  using assms by (induction mid) (auto simp: tail_none)

lemma skip_pre:
  "CHR ''{'' \<notin> set pre \<Longrightarrow>
   js_match (One (Lit CHR ''{'') # r) (pre @ s) = js_match (One (Lit CHR ''{'') # r) s"
  by (induction pre) auto

lemma no_close:
  "CHR ''}'' \<notin> set s \<Longrightarrow> js_match [One (Lit CHR ''{''), Star a, One (Lit CHR ''}'')] s = None"
  by (induction s) (auto simp: tail_none)

lemma jsonMatch_first_to_last:
  assumes "CHR ''{'' \<notin> set pre" and "CHR ''}'' \<notin> set post"
  shows "jsonMatch (pre @ CHR ''{'' # mid @ CHR ''}'' # post) = Some (CHR ''{'' # mid @ [CHR ''}''])"
  using assms unfolding jsonMatch_def brace_regex_def
  by (simp add: skip_pre tail_some)

lemma drop_to_brace:
  assumes "CHR ''}'' \<in> set (dropWhile (\<lambda>c. c \<noteq> CHR ''{'') t)"
  shows "\<exists>mid post. t = takeWhile (\<lambda>c. c \<noteq> CHR ''{'') t @ CHR ''{'' # mid @ CHR ''}'' # post
           \<and> CHR ''}'' \<notin> set post"
proof (cases "dropWhile (\<lambda>c. c \<noteq> CHR ''{'') t")
  case Nil
  with assms show ?thesis by simp
next
  case (Cons x rest)
  have "x = CHR ''{''"
    using hd_dropWhile[of "\<lambda>c. c \<noteq> CHR ''{''" t] unfolding Cons by simp
  with assms Cons have "CHR ''}'' \<in> set rest" by auto
  then obtain mid post where r: "rest = mid @ CHR ''}'' # post" "CHR ''}'' \<notin> set post"
    by (auto dest: split_list_last)
  have "t = takeWhile (\<lambda>c. c \<noteq> CHR ''{'') t @ dropWhile (\<lambda>c. c \<noteq> CHR ''{'') t" by simp
  then have "t = takeWhile (\<lambda>c. c \<noteq> CHR ''{'') t @ CHR ''{'' # mid @ CHR ''}'' # post"
    unfolding Cons r \<open>x = CHR ''{''\<close> .
  with r(2) show ?thesis by blast
qed

lemma has_brace_span_iff:
  "has_brace_span t \<longleftrightarrow> CHR ''}'' \<in> set (dropWhile (\<lambda>c. c \<noteq> CHR ''{'') t)"
proof
  assume "has_brace_span t"
  then obtain pre mid post where t: "t = pre @ CHR ''{'' # mid @ CHR ''}'' # post"
    unfolding has_brace_span_def by blast
  show "CHR ''}'' \<in> set (dropWhile (\<lambda>c. c \<noteq> CHR ''{'') t)"
    unfolding t by (induction pre) auto
next
  assume "CHR ''}'' \<in> set (dropWhile (\<lambda>c. c \<noteq> CHR ''{'') t)"
  from drop_to_brace[OF this] show "has_brace_span t"
    unfolding has_brace_span_def by blast
qed

lemma jsonMatch_none:
  assumes "\<not> has_brace_span t"
  shows "jsonMatch t = None"
proof -
  let ?p = "takeWhile (\<lambda>c. c \<noteq> CHR ''{'') t"
  let ?d = "dropWhile (\<lambda>c. c \<noteq> CHR ''{'') t"
  have p: "CHR ''{'' \<notin> set ?p" by (auto dest: set_takeWhileD)
  from assms have "CHR ''}'' \<notin> set ?d" by (simp add: has_brace_span_iff)
  then have "js_match brace_regex ?d = None" unfolding brace_regex_def by (rule no_close)
  moreover have "js_match brace_regex (?p @ ?d) = js_match brace_regex ?d"
    unfolding brace_regex_def using p by (rule skip_pre)
  ultimately show ?thesis unfolding jsonMatch_def by simp
qed

lemma jsonMatch_egg: "jsonMatch egg_reply = Some egg_json"
  unfolding egg_reply_def egg_json_def jsonMatch_def brace_regex_def by simp

lemma JSON_parse_ref_egg: "JSON_parse_ref egg_json = Inr egg_object"
  by code_simp

subsection \<open>Extraction and parse\<close>

text \<open>
  C2. When the reply of the upstream model is exactly
  \<open>Sure! {"foods":[{"name":"Egg","quantity":"50g","protein":6}],"totalProtein":6} Enjoy!\<close>,
  the extraction step yields exactly the JSON text between the braces, the surrounding prose
  is discarded, and the result of the extraction-and-parse step is what \<open>JSON.parse\<close> makes
  of that text: the object with the one food Egg, 50g, protein 6, and \<open>totalProtein\<close> 6.
\<close>

theorem extraction_discards_prose:
  "jsonMatch egg_reply = Some egg_json \<and>
   (JSON_parse egg_json = Inr egg_object \<longrightarrow>
      parse_content JSON_parse (Some egg_reply) = Inr egg_object)"
proof -
  have "\<not> falsy (Some egg_reply)" by (simp add: falsy_def egg_reply_def)
  then show ?thesis by (simp add: parse_content_def jsonMatch_egg)
qed

text \<open>The example with the parser of this theory in the place of \<open>JSON.parse\<close>.\<close>

theorem extraction_discards_prose_witness:
  "jsonMatch egg_reply = Some egg_json \<and>
   parse_content JSON_parse_ref (Some egg_reply) = Inr egg_object"
  using extraction_discards_prose[of JSON_parse_ref] JSON_parse_ref_egg by simp

subsection \<open>Validation of the request\<close>

text \<open>
  A request with neither field is answered with the message about the key, which does not
  mention the image: the key is checked first.
\<close>

theorem both_fields_absent_counterexample:
  "fst (POST (\<lambda>call. Throws []) (\<lambda>t. Inl [] :: string + unit)
          (Inr \<lparr>req_image = None, req_apiKey = None\<rparr>))
     = \<lparr>status = 400, body = ErrorBody ''OpenAI API key is required''\<rparr> \<and>
   \<not> mentions ''OpenAI API key is required'' ''image''"
proof -
  have "\<not> mentions ''OpenAI API key is required'' ''image''" by code_simp
  then show ?thesis by (simp add: POST_def falsy_def)
qed

text \<open>
  C5, as amended. For every request whose body is a JSON object: if the \<open>apiKey\<close> field is absent (or empty) the response
  is status 400 with the message \<open>OpenAI API key is required\<close>, which mentions the key,
  whatever the image field is; if the \<open>apiKey\<close> is present and the \<open>image\<close> field is absent
  (or empty) the response is status 400 with the message \<open>Image is required\<close>, which
  mentions the image; and whenever the \<open>image\<close> field is absent the status is 400. In all
  these cases no upstream call is made.
\<close>

theorem missing_field_responses:
  "(falsy (req_apiKey request) \<longrightarrow>
      POST upstream JSON_parse (Inr request)
        = (\<lparr>status = 400, body = ErrorBody ''OpenAI API key is required''\<rparr>, [])) \<and>
   (\<not> falsy (req_apiKey request) \<and> falsy (req_image request) \<longrightarrow>
      POST upstream JSON_parse (Inr request)
        = (\<lparr>status = 400, body = ErrorBody ''Image is required''\<rparr>, [])) \<and>
   (falsy (req_image request) \<longrightarrow>
      status (fst (POST upstream JSON_parse (Inr request))) = 400 \<and>
      snd (POST upstream JSON_parse (Inr request)) = []) \<and>
   mentions ''OpenAI API key is required'' ''key'' \<and>
   mentions ''Image is required'' ''image''"
proof -
  have "mentions ''OpenAI API key is required'' ''key''" by code_simp
  moreover have "mentions ''Image is required'' ''image''" by code_simp
  ultimately show ?thesis by (simp add: POST_def)
qed

theorem missing_field_responses_witness:
  "POST (\<lambda>call. Throws []) JSON_parse_ref
        (Inr \<lparr>req_image = None, req_apiKey = Some ''sk-1''\<rparr>)
     = (\<lparr>status = 400, body = ErrorBody ''Image is required''\<rparr>, []) \<and>
   POST (\<lambda>call. Throws []) JSON_parse_ref
        (Inr \<lparr>req_image = Some ''data:image/png;base64,AA=='', req_apiKey = None\<rparr>)
     = (\<lparr>status = 400, body = ErrorBody ''OpenAI API key is required''\<rparr>, [])"
  using missing_field_responses[of "\<lparr>req_image = None, req_apiKey = Some ''sk-1''\<rparr>"
          "\<lambda>call. Throws []" JSON_parse_ref]
        missing_field_responses[of
          "\<lparr>req_image = Some ''data:image/png;base64,AA=='', req_apiKey = None\<rparr>"
          "\<lambda>call. Throws []" JSON_parse_ref]
  by (simp add: falsy_def)

subsection \<open>Replies that cannot be parsed\<close>

text \<open>
  C6. For a request that passes validation and every reply text of the upstream model: if
  the text contains no brace-delimited substring, the response is an error response, status
  500 with a body \<open>{ error: message }\<close>; and if the extracted substring is not valid JSON
  (\<open>JSON.parse\<close> throws), the response is again status 500 with a body \<open>{ error: message }\<close>.
\<close>

theorem unparseable_reply_is_error:
  assumes "\<not> falsy (req_apiKey request)" and "\<not> falsy (req_image request)"
  shows "(\<not> has_brace_span text \<longrightarrow>
            fst (POST (\<lambda>call. Completion (Some text)) JSON_parse (Inr request))
              = \<lparr>status = 500,
                 body = ErrorBody (if text = [] then ''No response from OpenAI''
                                   else ''Invalid response format from OpenAI'')\<rparr>) \<and>
         (\<forall>m e. jsonMatch text = Some m \<and> JSON_parse m = Inl e \<longrightarrow>
            fst (POST (\<lambda>call. Completion (Some text)) JSON_parse (Inr request))
              = \<lparr>status = 500,
                 body = ErrorBody (if e = [] then ''Failed to analyze image'' else e)\<rparr>)"
proof -
  have a: "jsonMatch [] = None" by (simp add: jsonMatch_def brace_regex_def)
  show ?thesis
    using assms a
    by (auto simp: POST_def parse_content_def catch_error_def jsonMatch_none falsy_def Let_def
             split: option.splits)
qed

theorem unparseable_reply_is_error_witness:
  "fst (POST (\<lambda>call. Completion (Some ''I cannot see any food in this photo.'')) JSON_parse_ref
          (Inr \<lparr>req_image = Some ''data:image/png;base64,AA=='', req_apiKey = Some ''sk-1''\<rparr>))
     = \<lparr>status = 500, body = ErrorBody ''Invalid response format from OpenAI''\<rparr> \<and>
   fst (POST (\<lambda>call. Completion (Some ''Result: {protein: high}'')) JSON_parse_ref
          (Inr \<lparr>req_image = Some ''data:image/png;base64,AA=='', req_apiKey = Some ''sk-1''\<rparr>))
     = \<lparr>status = 500, body = ErrorBody ''Unexpected token in JSON''\<rparr>"
proof -
  let ?request = "\<lparr>req_image = Some ''data:image/png;base64,AA=='', req_apiKey = Some ''sk-1''\<rparr>"
  have r: "\<not> falsy (req_apiKey ?request)" "\<not> falsy (req_image ?request)"
    by (simp_all add: falsy_def)
  have n: "\<not> has_brace_span ''I cannot see any food in this photo.''"
    by (simp add: has_brace_span_iff)
  have m: "jsonMatch ''Result: {protein: high}'' = Some ''{protein: high}''"
    by (simp add: jsonMatch_def brace_regex_def)
  have p: "JSON_parse_ref ''{protein: high}'' = Inl ''Unexpected token in JSON''"
    by code_simp
  from unparseable_reply_is_error[OF r, of "''I cannot see any food in this photo.''" JSON_parse_ref] n
  have "fst (POST (\<lambda>call. Completion (Some ''I cannot see any food in this photo.''))
               JSON_parse_ref (Inr ?request))
          = \<lparr>status = 500, body = ErrorBody ''Invalid response format from OpenAI''\<rparr>"
    by simp
  moreover from unparseable_reply_is_error[OF r, of "''Result: {protein: high}''" JSON_parse_ref] m p
  have "fst (POST (\<lambda>call. Completion (Some ''Result: {protein: high}'')) JSON_parse_ref
               (Inr ?request))
          = \<lparr>status = 500, body = ErrorBody ''Unexpected token in JSON''\<rparr>"
    by simp
  ultimately show ?thesis by simp
qed

subsection \<open>The greedy match\<close>

text \<open>
  A text in which the only \<open>}\<close> stands before the only \<open>{\<close> contains both characters, and
  nothing is extracted from it.
\<close>

theorem close_before_open_counterexample:
  "CHR ''{'' \<in> set ''} {'' \<and> CHR ''}'' \<in> set ''} {'' \<and> jsonMatch ''} {'' = None"
  by (simp add: jsonMatch_def brace_regex_def)

text \<open>
  C10, as amended. For every reply text that has a \<open>}\<close> somewhere after its first \<open>{\<close>, the
  substring that the Gateway extracts and passes to \<open>JSON.parse\<close> spans from the first \<open>{\<close> of
  the reply to the last \<open>}\<close> of the reply: \<open>pre\<close> is the text before the first \<open>{\<close>, \<open>post\<close>
  the text after the last \<open>}\<close>, and \<open>mid\<close>, everything between the two, may itself contain
  braces, so that prose with a \<open>}\<close> after the intended object is part of the parsed span.
\<close>

theorem greedy_extraction:
  assumes "CHR ''{'' \<notin> set pre" and "CHR ''}'' \<notin> set post"
  shows "jsonMatch (pre @ CHR ''{'' # mid @ CHR ''}'' # post) = Some (CHR ''{'' # mid @ [CHR ''}'']) \<and>
         parse_content JSON_parse (Some (pre @ CHR ''{'' # mid @ CHR ''}'' # post))
           = JSON_parse (CHR ''{'' # mid @ [CHR ''}''])"
  using jsonMatch_first_to_last[OF assms, of mid]
  by (simp add: parse_content_def falsy_def)

theorem greedy_extraction_witness:
  "jsonMatch ''ok {\"a\":1} :-} bye'' = Some ''{\"a\":1} :-}'' \<and>
   parse_content JSON_parse_ref (Some ''ok {\"a\":1} :-} bye'') = Inl ''Unexpected token in JSON''"
proof -
  have "JSON_parse_ref ''{\"a\":1} :-}'' = Inl ''Unexpected token in JSON''" by code_simp
  then show ?thesis
    using greedy_extraction[of "''ok ''" "'' bye''" "''\"a\":1} :-''" JSON_parse_ref] by simp
qed

section \<open>Properties of binary64 rounding\<close>

lemma round_half_even_error: "\<bar>of_int (round_half_even y) - y\<bar> \<le> 1 / 2"
proof -
  have "of_int \<lfloor>y\<rfloor> \<le> y" "y < of_int \<lfloor>y\<rfloor> + 1" by linarith+
  then show ?thesis unfolding round_half_even_def Let_def by auto
qed

lemma round_half_even_of_int: "round_half_even (of_int k) = k"
  by (simp add: round_half_even_def)

lemma round_half_even_nonneg: "0 \<le> y \<Longrightarrow> 0 \<le> round_half_even y"
  unfolding round_half_even_def Let_def by (auto simp: le_floor_iff)

lemma exponent_bracket_ge1:
  assumes "1 \<le> \<bar>x\<bar>"
  shows "2 powi exponent x \<le> \<bar>x\<bar>" and "\<bar>x\<bar> < 2 powi (exponent x + 1)" and "0 \<le> exponent x"
proof -
  let ?n = "\<lfloor>\<bar>x\<bar>\<rfloor>"
  have n: "0 < ?n" using assms by (simp add: less_floor_iff)
  from bitlen_bounds[OF n] have lo: "2 ^ nat (bitlen ?n - 1) \<le> ?n" and hi: "?n < 2 ^ nat (bitlen ?n)"
    by auto
  have b: "1 \<le> bitlen ?n" using n by (metis bitlen_eq_zero_iff bitlen_nonneg not_less order_le_less zless_imp_add1_zle zero_less_one add_0)
  have e: "exponent x = bitlen ?n - 1" using assms by (simp add: exponent_def)
  show "0 \<le> exponent x" using b e by simp
  have "(2::rat) powi exponent x = 2 ^ nat (bitlen ?n - 1)"
    using b e by (simp add: power_int_nonneg_exp)
  also have "\<dots> = of_int (2 ^ nat (bitlen ?n - 1))" by simp
  also have "\<dots> \<le> of_int ?n" using lo by (simp only: of_int_le_iff)
  also have "\<dots> \<le> \<bar>x\<bar>" by simp
  finally show "2 powi exponent x \<le> \<bar>x\<bar>" .
  have "\<bar>x\<bar> < of_int (?n + 1)" by linarith
  also have "\<dots> \<le> of_int (2 ^ nat (bitlen ?n))" using hi by (simp only: of_int_le_iff)
  also have "\<dots> = (2::rat) ^ nat (bitlen ?n)" by simp
  also have "\<dots> = 2 powi (exponent x + 1)" using b e by (simp add: power_int_nonneg_exp)
  finally show "\<bar>x\<bar> < 2 powi (exponent x + 1)" .
qed


lemma exponent_bracket_lt1:
  assumes "x \<noteq> 0" "\<bar>x\<bar> < 1"
  shows "2 powi exponent x \<le> \<bar>x\<bar>" and "\<bar>x\<bar> < 2 powi (exponent x + 1)"
proof -
  let ?y = "1 / \<bar>x\<bar>"
  let ?m = "\<lceil>?y\<rceil> - 1"
  have xpos: "0 < \<bar>x\<bar>" using assms by simp
  have y: "1 < ?y" using assms xpos by simp
  have m: "0 < ?m" using y by (simp add: less_ceiling_iff)
  from bitlen_bounds[OF m] have lo: "2 ^ nat (bitlen ?m - 1) \<le> ?m" and hi: "?m < 2 ^ nat (bitlen ?m)"
    by auto
  have b: "1 \<le> bitlen ?m"
    using m bitlen_eq_zero_iff[of ?m] bitlen_nonneg[of ?m] by linarith
  have e: "exponent x = - bitlen ?m" using assms by (simp add: exponent_def)
  have "?y \<le> of_int (?m + 1)" by simp
  also have "\<dots> \<le> of_int (2 ^ nat (bitlen ?m))" using hi by (simp only: of_int_le_iff)
  also have "\<dots> = (2::rat) ^ nat (bitlen ?m)" by simp
  finally have "?y \<le> 2 ^ nat (bitlen ?m)" .
  then have "1 \<le> 2 ^ nat (bitlen ?m) * \<bar>x\<bar>" using xpos by (simp add: field_simps)
  then have "1 / 2 ^ nat (bitlen ?m) \<le> \<bar>x\<bar>" by (simp add: field_simps)
  moreover have "(2::rat) powi exponent x = 1 / 2 ^ nat (bitlen ?m)"
    using b e by (simp add: power_int_def field_simps)
  ultimately show "2 powi exponent x \<le> \<bar>x\<bar>" by simp
  have "(2::rat) ^ nat (bitlen ?m - 1) = of_int (2 ^ nat (bitlen ?m - 1))" by simp
  also have "\<dots> \<le> of_int ?m" using lo by (simp only: of_int_le_iff)
  also have "\<dots> < ?y" using ceiling_correct[of ?y] by simp
  finally have "2 ^ nat (bitlen ?m - 1) * \<bar>x\<bar> < 1" using xpos by (simp add: field_simps)
  then have lt: "\<bar>x\<bar> < 1 / 2 ^ nat (bitlen ?m - 1)" by (simp add: field_simps)
  have "(2::rat) powi (exponent x + 1) = 1 / 2 ^ nat (bitlen ?m - 1)"
  proof (cases "bitlen ?m = 1")
    case True
    then show ?thesis using e by simp
  next
    case False
    with b have "exponent x + 1 < 0" "nat (- (exponent x + 1)) = nat (bitlen ?m - 1)"
      using e by auto
    then show ?thesis by (simp add: power_int_def field_simps)
  qed
  with lt show "\<bar>x\<bar> < 2 powi (exponent x + 1)" by simp
qed

lemma exponent_bracket:
  assumes "x \<noteq> 0"
  shows "2 powi exponent x \<le> \<bar>x\<bar> \<and> \<bar>x\<bar> < 2 powi (exponent x + 1)"
  using assms exponent_bracket_ge1(1,2)[of x] exponent_bracket_lt1[of x]
  by (cases "1 \<le> \<bar>x\<bar>") auto

lemma exponent_less:
  assumes "x \<noteq> 0" "\<bar>x\<bar> < 2 powi k"
  shows "exponent x < k"
proof (rule ccontr)
  assume "\<not> exponent x < k"
  then have "k \<le> exponent x" by simp
  then have "(2::rat) powi k \<le> 2 powi exponent x" by (intro power_int_increasing) auto
  with exponent_bracket[OF assms(1)] assms(2) show False by linarith
qed

lemma round64_error:
  assumes "x \<noteq> 0"
  shows "\<bar>round64 x - x\<bar> \<le> 2 powi (max (exponent x) (- 1022) - 53)"
proof -
  define q :: rat where "q = 2 powi (max (exponent x) (- 1022) - 52)"
  have q: "0 < q" by (simp add: q_def)
  have b: "round64 x = q * of_int (round_half_even (x / q))"
    using assms by (simp add: round64_def q_def Let_def)
  have "round64 x - x = q * (of_int (round_half_even (x / q)) - x / q)"
    using q by (simp add: b field_simps)
  then have "\<bar>round64 x - x\<bar> = q * \<bar>of_int (round_half_even (x / q)) - x / q\<bar>"
    using q by (simp add: abs_mult)
  also have "\<dots> \<le> q * (1 / 2)"
    using q round_half_even_error[of "x / q"] by (intro mult_left_mono) auto
  also have "\<dots> = 2 powi (max (exponent x) (- 1022) - 53)"
    unfolding q_def using power_int_add[of "2::rat" "max (exponent x) (- 1022) - 53" 1] by simp
  finally show ?thesis .
qed

lemma round64_nonneg:
  assumes "0 \<le> x"
  shows "0 \<le> round64 x"
proof -
  define q :: rat where "q = 2 powi (max (exponent x) (- 1022) - 52)"
  have q: "0 < q" by (simp add: q_def)
  then have "0 \<le> x / q" using assms by simp
  then have "0 \<le> round_half_even (x / q)" by (rule round_half_even_nonneg)
  then have "0 \<le> q * of_int (round_half_even (x / q))" using q by simp
  then show ?thesis by (simp add: round64_def Let_def q_def)
qed

lemma round64_of_int:
  assumes "0 \<le> n" "n \<le> 2 ^ 53"
  shows "round64 (of_int n) = of_int n"
proof (cases "n = 0")
  case True
  then show ?thesis by (simp add: round64_def)
next
  case False
  with assms have n: "0 < n" by simp
  let ?x = "of_int n :: rat"
  have x1: "1 \<le> \<bar>?x\<bar>" using n by simp
  have e0: "0 \<le> exponent ?x" using exponent_bracket_ge1(3)[OF x1] .
  have "\<bar>?x\<bar> < 2 powi 54" using assms by simp
  then have e54: "exponent ?x < 54" using n by (intro exponent_less) auto
  define q :: rat where "q = 2 powi (exponent ?x - 52)"
  have b: "round64 ?x = q * of_int (round_half_even (?x / q))"
    using n e0 by (simp add: round64_def q_def max_def Let_def)
  have q: "0 < q" by (simp add: q_def)
  have "\<exists>k::int. ?x / q = of_int k"
  proof (cases "exponent ?x \<le> 52")
    case True
    then have "q = 1 / 2 ^ nat (52 - exponent ?x)"
      unfolding q_def by (cases "exponent ?x = 52") (auto simp: power_int_def field_simps)
    then have "?x / q = of_int (n * 2 ^ nat (52 - exponent ?x))" by simp
    then show ?thesis by blast
  next
    case False
    with e54 have e: "exponent ?x = 53" by simp
    then have "2 powi 53 \<le> \<bar>?x\<bar>" using exponent_bracket_ge1(1)[OF x1] by simp
    then have "n = 2 ^ 53" using assms n by simp
    moreover have "q = 2" using e by (simp add: q_def)
    ultimately have "?x / q = of_int (2 ^ 52)" by simp
    then show ?thesis by blast
  qed
  then obtain k :: int where k: "?x / q = of_int k" by blast
  then have "q * of_int (round_half_even (?x / q)) = q * (?x / q)"
    by (simp add: round_half_even_of_int)
  also have "\<dots> = ?x" using q by simp
  finally show ?thesis using b by simp
qed

lemma round_half_even_nonpos: "y \<le> 0 \<Longrightarrow> round_half_even y \<le> 0"
proof -
  assume y: "y \<le> 0"
  have f: "of_int \<lfloor>y\<rfloor> \<le> y" by simp
  then have f0: "\<lfloor>y\<rfloor> \<le> 0" using y by (simp add: floor_le_iff)
  have "\<lfloor>y\<rfloor> + 1 \<le> 0" if "1 / 2 \<le> y - of_int \<lfloor>y\<rfloor>"
  proof -
    from that y have "of_int \<lfloor>y\<rfloor> < (0::rat)" by linarith
    then have "\<lfloor>y\<rfloor> < 0" by simp
    then show ?thesis by linarith
  qed
  with f0 show ?thesis unfolding round_half_even_def Let_def by auto
qed

lemma round64_nonpos:
  assumes "x \<le> 0"
  shows "round64 x \<le> 0"
proof -
  define q :: rat where "q = 2 powi (max (exponent x) (- 1022) - 52)"
  have q: "0 < q" by (simp add: q_def)
  then have "x / q \<le> 0" using assms by (simp add: divide_le_0_iff)
  then have "round_half_even (x / q) \<le> 0" by (rule round_half_even_nonpos)
  then have "q * of_int (round_half_even (x / q)) \<le> 0" using q by (simp add: mult_le_0_iff)
  then show ?thesis by (simp add: round64_def Let_def q_def)
qed

lemma round64_Nats:
  assumes "x \<in> \<nat>" "x \<le> 2 ^ 53"
  shows "round64 x = x"
proof -
  from assms(1) obtain n :: nat where x: "x = of_nat n" by (auto elim: Nats_cases)
  then have "x = of_int (int n)" by simp
  moreover have "int n \<le> 2 ^ 53" using assms(2) x by (metis of_int_le_iff of_int_of_nat_eq of_int_numeral of_int_power)
  ultimately show ?thesis using round64_of_int[of "int n"] by simp
qed

text \<open>Rounding to a finite value, and the sign of a rounded value.\<close>

lemma overflow_power: "overflow = 2 ^ 1024"
  unfolding overflow_def by (simp only: of_int_power of_int_numeral)

lemma overflow_large: "2 ^ 53 < overflow"
  unfolding overflow_power by (rule power_strict_increasing) simp_all

lemma overflow_pos: "0 < overflow"
  unfolding overflow_power by (rule zero_less_power) simp

lemma binary64_Num: "\<bar>round64 x\<bar> < overflow \<Longrightarrow> binary64 x = Num (round64 x)"
  by (simp add: binary64_def Let_def abs_less_iff not_le)

lemma binary64_cases:
  "binary64 x = Num (round64 x) \<or>
   (binary64 x = PosInfinity \<and> 0 < round64 x) \<or>
   (binary64 x = NegInfinity \<and> round64 x < 0)"
  using overflow_pos unfolding binary64_def Let_def by (auto simp: not_le)

lemma binary64_not_NaN [simp]: "binary64 x \<noteq> NaN"
  using binary64_cases[of x] by auto

lemma binary64_nonneg: "0 \<le> x \<Longrightarrow> js_le (Num 0) (binary64 x)"
  using binary64_cases[of x] round64_nonneg[of x] by auto

lemma binary64_nonpos: "x \<le> 0 \<Longrightarrow> js_le (binary64 x) (Num 0)"
  using binary64_cases[of x] round64_nonpos[of x] by auto

lemma binary64_small:
  assumes "\<bar>round64 x\<bar> \<le> 2 ^ 53"
  shows "binary64 x = Num (round64 x)"
  using assms overflow_large by (intro binary64_Num) linarith

lemma binary64_Nats:
  assumes "x \<in> \<nat>" "x \<le> 2 ^ 53"
  shows "binary64 x = Num x"
proof -
  have r: "round64 x = x" using assms by (rule round64_Nats)
  have "0 \<le> x" using assms(1) by (auto elim!: Nats_cases)
  then have "\<bar>round64 x\<bar> \<le> 2 ^ 53" unfolding r using assms(2) by simp
  then show ?thesis using r by (simp add: binary64_small)
qed

text \<open>A number of magnitude \<open>2 ^ 1024\<close> or more rounds to an infinity.\<close>

lemma round_half_even_ge: "of_int k \<le> y \<Longrightarrow> k \<le> round_half_even y"
proof -
  assume "of_int k \<le> y"
  then have "k \<le> \<lfloor>y\<rfloor>" by (simp add: le_floor_iff)
  moreover have "\<lfloor>y\<rfloor> \<le> round_half_even y" unfolding round_half_even_def Let_def by simp
  ultimately show ?thesis by simp
qed

lemma overflow_powi: "overflow = 2 powi 1024"
  unfolding overflow_power by (simp only: power_int_numeral)

lemma binary64_overflow:
  assumes "overflow \<le> x"
  shows "binary64 x = PosInfinity"
proof -
  define e where "e = exponent x"
  define q :: rat where "q = 2 powi (e - 52)"
  have x: "0 < x" using assms overflow_pos by linarith
  then have nz: "x \<noteq> 0" and ax: "\<bar>x\<bar> = x" by simp_all
  from exponent_bracket[OF nz] have lo: "2 powi e \<le> x" and hi: "x < 2 powi (e + 1)"
    unfolding e_def ax by simp_all
  have "(2::rat) powi 1024 < 2 powi (e + 1)" using assms hi unfolding overflow_powi by linarith
  have e: "1024 \<le> e"
  proof (rule ccontr)
    assume "\<not> 1024 \<le> e"
    then have "e + 1 \<le> 1024" by simp
    then have "(2::rat) powi (e + 1) \<le> 2 powi 1024" by (intro power_int_increasing) simp_all
    with \<open>(2::rat) powi 1024 < 2 powi (e + 1)\<close> show False by simp
  qed
  then have m: "max e (- 1022) = e" by simp
  have q: "0 < q" unfolding q_def by (simp add: power_int_def)
  have split: "(2::rat) powi e = q * 2 powi 52"
    using power_int_add[of "2::rat" "e - 52" 52] unfolding q_def by simp
  have "of_int (2 ^ 52) = (2::rat) powi 52" by (simp add: power_int_def)
  also have "\<dots> = 2 powi e / q" unfolding split using q by simp
  also have "\<dots> \<le> x / q" using lo q by (simp add: divide_right_mono)
  finally have "2 ^ 52 \<le> round_half_even (x / q)" by (rule round_half_even_ge)
  then have "(of_int (2 ^ 52) :: rat) \<le> of_int (round_half_even (x / q))"
    by (simp only: of_int_le_iff)
  then have "q * 2 powi 52 \<le> q * of_int (round_half_even (x / q))"
    using q by (simp add: power_int_def)
  moreover have "overflow \<le> 2 powi e"
    unfolding overflow_powi using e by (intro power_int_increasing) simp_all
  ultimately have "overflow \<le> q * of_int (round_half_even (x / q))" unfolding split by linarith
  moreover have "round64 x = q * of_int (round_half_even (x / q))"
    using nz unfolding round64_def Let_def e_def[symmetric] m q_def by simp
  ultimately show ?thesis by (simp add: binary64_def Let_def)
qed

section \<open>Properties of the Session Tracker\<close>

subsection \<open>The daily goal\<close>

lemma round64_literals:
  "round64 2.0 = 2"
  "round64 1.6 = 3602879701896397 / 2251799813685248"
  "round64 1.2 = 5404319552844595 / 4503599627370496"
  by code_simp+

lemma binary64_literals:
  "binary64 2.0 = Num (round64 2.0)"
  "binary64 1.6 = Num (round64 1.6)"
  "binary64 1.2 = Num (round64 1.2)"
  by (rule binary64_small, simp only: round64_literals, simp)+

lemma multiplier_spec: "multiplier g = binary64 (spec_multiplier g)"
  by (cases g)
    (simp_all only: multiplier_def spec_multiplier.simps fitness_goal.simps if_True if_False
       refl simp_thms)

lemma multiplier_Num: "multiplier g = Num (round64 (spec_multiplier g))"
  unfolding multiplier_spec by (cases g) (simp_all only: spec_multiplier.simps binary64_literals)

lemma multiplier_close:
  "\<bar>round64 (spec_multiplier g) - spec_multiplier g\<bar> \<le> 1 / 2 ^ 52"
  "1 \<le> round64 (spec_multiplier g)"
  "round64 (spec_multiplier g) \<le> 2"
  by (cases g; simp only: spec_multiplier.simps round64_literals; simp)+

lemma floor_stable:
  fixes a :: int and r :: rat
  assumes "odd a" "\<bar>r - of_int a / 10\<bar> < 1 / 10"
  shows "\<lfloor>r\<rfloor> = \<lfloor>of_int a / 10 :: rat\<rfloor>"
proof -
  define k where "k = a div 10"
  define j where "j = a mod 10"
  have a: "a = 10 * k + j" by (simp add: k_def j_def)
  have j: "1 \<le> j" "j \<le> 9" using assms(1) unfolding j_def by presburger+
  have t: "of_int a / 10 = (of_int k :: rat) + of_int j / 10" by (simp add: a)
  have "(of_int k :: rat) + 1 / 10 \<le> of_int a / 10" "of_int a / 10 \<le> (of_int k :: rat) + 9 / 10"
    using j unfolding t by simp_all
  with assms(2) have "of_int k \<le> r" "r < of_int k + 1" by linarith+
  then have "\<lfloor>r\<rfloor> = k" by (rule floor_unique)
  moreover have "\<lfloor>of_int a / 10 :: rat\<rfloor> = k"
    unfolding k_def using floor_divide_of_int_eq[of a 10, where ?'a = rat] by simp
  ultimately show ?thesis by simp
qed


lemma product_error:
  fixes w :: rat
  assumes "30 \<le> w" "w \<le> 200"
  shows "\<bar>round64 (w * round64 (spec_multiplier g)) - w * spec_multiplier g\<bar> < 1 / 10"
proof -
  define m where "m = round64 (spec_multiplier g)"
  define p :: rat where "p = w * m"
  note w = assms
  have m0: "0 \<le> m" using multiplier_close(2)[of g] unfolding m_def by simp
  have lo: "30 \<le> p"
    unfolding p_def
    using w(1) multiplier_close(2)[of g] mult_mono[of 30 w 1 m] unfolding m_def by simp
  have hi: "p \<le> 400"
    unfolding p_def
    using w m0 multiplier_close(3)[of g] mult_mono[of w 200 m 2] unfolding m_def by simp
  have p0: "p \<noteq> 0" using lo by simp
  have "\<bar>p\<bar> < 2 powi 9" using lo hi by simp
  with p0 have "exponent p < 9" by (rule exponent_less)
  moreover have "0 \<le> exponent p" using lo by (intro exponent_bracket_ge1(3)) simp
  ultimately have "max (exponent p) (- 1022) - 53 \<le> - 45" by simp
  then have "(2::rat) powi (max (exponent p) (- 1022) - 53) \<le> 2 powi (- 45)"
    by (intro power_int_increasing) auto
  with round64_error[OF p0] have e1: "\<bar>round64 p - p\<bar> \<le> 2 powi (- 45)" by linarith
  have "p - w * spec_multiplier g = w * (m - spec_multiplier g)"
    unfolding p_def by (simp add: right_diff_distrib)
  then have "\<bar>p - w * spec_multiplier g\<bar> = w * \<bar>m - spec_multiplier g\<bar>"
    using w by (simp add: abs_mult)
  also have "\<dots> \<le> 200 * (1 / 2 ^ 52)"
    using w multiplier_close(1)[of g] unfolding m_def by (intro mult_mono) auto
  finally have e2: "\<bar>p - w * spec_multiplier g\<bar> \<le> 200 * (1 / 2 ^ 52)" .
  have "(2::rat) powi (- 45) + 200 * (1 / 2 ^ 52) < 1 / 10" by (simp add: power_int_minus)
  with e1 e2 show ?thesis unfolding p_def m_def by linarith
qed

lemma product_bounds:
  fixes w :: rat
  assumes "30 \<le> w" "w \<le> 200"
  shows "29 < round64 (w * round64 (spec_multiplier g))"
    and "round64 (w * round64 (spec_multiplier g)) < 401"
proof -
  have s: "1 \<le> spec_multiplier g" "spec_multiplier g \<le> 2" by (cases g; simp)+
  have "30 * 1 \<le> w * spec_multiplier g" using assms(1) s(1) by (intro mult_mono) auto
  moreover have "w * spec_multiplier g \<le> 200 * 2" using assms s by (intro mult_mono) auto
  ultimately show "29 < round64 (w * round64 (spec_multiplier g))"
    and "round64 (w * round64 (spec_multiplier g)) < 401"
    using product_error[OF assms, of g] by linarith+
qed

text \<open>For a weight from 30 to 200 the product is a finite number.\<close>

lemma product_finite:
  fixes w :: rat
  assumes "30 \<le> w" "w \<le> 200"
  shows "js_mul (Num w) (multiplier g) = Num (round64 (w * round64 (spec_multiplier g)))"
proof -
  have "\<bar>round64 (w * round64 (spec_multiplier g))\<bar> \<le> 2 ^ 53"
    using product_bounds[OF assms, of g] by simp
  then show ?thesis unfolding multiplier_Num by (simp add: binary64_small)
qed

lemma dailyGoal_exact:
  fixes w :: rat
  assumes "w \<in> \<int>" "30 \<le> w" "w \<le> 200"
  shows "Math_round (js_mul (Num w) (multiplier g))
           = Num (of_int (round_nearest (w * spec_multiplier g)))"
proof -
  from assms(1) obtain n :: int where n: "w = of_int n" by (auto elim: Ints_cases)
  define c :: int where "c = (case g of Lose \<Rightarrow> 12 | Maintain \<Rightarrow> 16 | Gain \<Rightarrow> 20)"
  have m: "spec_multiplier g = of_int c / 10" by (cases g) (simp_all add: c_def)
  have ev: "even c" by (cases g) (simp_all add: c_def)
  define a where "a = c * n + 5"
  have odd: "odd a" using ev by (simp add: a_def)
  have t: "w * spec_multiplier g + 1 / 2 = (of_int a / 10 :: rat)"
    by (simp add: m n a_def field_simps)
  have "\<bar>(round64 (w * round64 (spec_multiplier g)) + 1 / 2) - of_int a / 10\<bar> < 1 / 10"
    using product_error[OF assms(2,3), of g] unfolding t[symmetric] by simp
  from floor_stable[OF odd this] show ?thesis
    unfolding product_finite[OF assms(2,3)] round_nearest_def t by simp
qed

lemma goalEffect_fields [simp]:
  "weight (goalEffect s) = weight s"
  "goal (goalEffect s) = goal s"
  "mealHistory (goalEffect s) = mealHistory s"
  "dailyTotal (goalEffect s) = dailyTotal s"
  "dailyGoal (goalEffect s) = Math_round (js_mul (weight s) (multiplier (goal s)))"
  by (simp_all add: goalEffect_def)

lemma totalEffect_fields [simp]:
  "weight (totalEffect s) = weight s"
  "goal (totalEffect s) = goal s"
  "mealHistory (totalEffect s) = mealHistory s"
  "dailyGoal (totalEffect s) = dailyGoal s"
  "dailyTotal (totalEffect s)
     = foldl (\<lambda>sum meal. js_add sum (ToNumber (totalProtein meal))) (Num 0) (mealHistory s)"
  by (simp_all add: totalEffect_def)

lemma reduce_js_sum:
  "foldl (\<lambda>sum meal. js_add sum (ToNumber (totalProtein meal))) a ms
     = foldl (\<lambda>sum v. js_add sum (ToNumber v)) a (map totalProtein ms)"
  by (induction ms arbitrary: a) simp_all

lemma loadend_cases:
  "loadend result now s = s \<or>
   (\<exists>fs tp. result = ResponseOk fs tp \<and>
      loadend result now s =
        totalEffect
          (s\<lparr>currentAnalysis := Some \<lparr>foods = fs, totalProtein = tp, timestamp = now\<rparr>,
             mealHistory := mealHistory s @ [\<lparr>foods = fs, totalProtein = tp, timestamp = now\<rparr>]\<rparr>))"
  by (cases result) (simp_all add: loadend_def onloadend_def Let_def)

text \<open>The first invariant: the stored goal is the one derived from the weight and the goal.\<close>

lemma reachable_dailyGoal:
  "reachable s \<Longrightarrow> dailyGoal s = Math_round (js_mul (weight s) (multiplier (goal s)))"
proof (induction rule: reachable.induct)
  case mounted
  show ?case by (simp add: mount_def)
next
  case (loaded s result now)
  then show ?case using loadend_cases[of result now s] by auto
qed (auto simp: onApiKeyChange_def onWeightChange_def onGoalChange_def handleFileSelect_def
      analyzeImage_def onResetClick_def resetDay_def split: option.splits)

text \<open>
  C1. For every weight \<open>w\<close> and every goal \<open>g\<close>, after the user has entered them the derived
  daily goal equals \<open>round(w \<times> m)\<close>, where \<open>m\<close> is 1.2 for lose, 1.6 for maintain and 2.0 for
  gain, the product and the rounding being the program's (binary64 arithmetic and
  \<open>Math.round\<close>, at every number the weight field can hold, \<open>NaN\<close> and the infinities
  included); for every whole number of kilograms from 30 to 200 that is the nearest
  integer to the exact product, a half rounded up; and weight 70 with goal maintain gives
  the daily goal 112.
\<close>

theorem dailyGoal_derivation:
  assumes "reachable s"
  shows "weight (onGoalChange g (onWeightChange w s)) = w \<and>
         goal (onGoalChange g (onWeightChange w s)) = g \<and>
         dailyGoal (onGoalChange g (onWeightChange w s))
           = Math_round (js_mul w (binary64 (spec_multiplier g))) \<and>
         (\<forall>x. w = Num x \<and> x \<in> \<int> \<and> 30 \<le> x \<and> x \<le> 200 \<longrightarrow>
            dailyGoal (onGoalChange g (onWeightChange w s))
              = Num (of_int (round_nearest (x * spec_multiplier g)))) \<and>
         (w = Num 70 \<and> g = Maintain \<longrightarrow>
            dailyGoal (onGoalChange g (onWeightChange w s)) = Num 112)"
proof -
  let ?s = "onGoalChange g (onWeightChange w s)"
  have r: "reachable ?s" using assms by (intro reachable.goal reachable.weight)
  have w: "weight ?s = w" by (simp add: onGoalChange_def onWeightChange_def)
  have g: "goal ?s = g" by (simp add: onGoalChange_def onWeightChange_def)
  have d: "dailyGoal ?s = Math_round (js_mul w (multiplier g))"
    using reachable_dailyGoal[OF r] unfolding w g .
  have e: "dailyGoal ?s = Num (of_int (round_nearest (x * spec_multiplier g)))"
    if "w = Num x" "x \<in> \<int>" "30 \<le> x" "x \<le> 200" for x
  proof -
    have "Math_round (js_mul (Num x) (multiplier g))
            = Num (of_int (round_nearest (x * spec_multiplier g)))"
      using that(2-4) by (rule dailyGoal_exact)
    then show ?thesis using d unfolding that(1) by simp
  qed
  have "dailyGoal ?s = Num 112" if "w = Num 70" "g = Maintain"
  proof -
    have "dailyGoal ?s = Num (of_int (round_nearest (70 * spec_multiplier g)))"
      using that by (intro e) simp_all
    also have "\<dots> = Num 112" unfolding that by code_simp
    finally show ?thesis .
  qed
  with w g d e show ?thesis unfolding multiplier_spec by blast
qed

theorem dailyGoal_derivation_witness:
  "reachable mount \<and>
   dailyGoal (onGoalChange Maintain (onWeightChange (Num 70) mount)) = Num 112 \<and>
   dailyGoal (onGoalChange Lose (onWeightChange (Num 85) mount)) = Num 102"
proof -
  have "(85::rat) \<in> \<int>" "(30::rat) \<le> 85" "(85::rat) \<le> 200" by simp_all
  with dailyGoal_derivation[OF reachable.mounted, of Lose "Num 85"]
  have "dailyGoal (onGoalChange Lose (onWeightChange (Num 85) mount))
          = Num (of_int (round_nearest (85 * spec_multiplier Lose)))"
    by blast
  also have "\<dots> = Num 102" by code_simp
  finally have a: "dailyGoal (onGoalChange Lose (onWeightChange (Num 85) mount)) = Num 102" .
  from dailyGoal_derivation[OF reachable.mounted, of Maintain "Num 70"]
  have "dailyGoal (onGoalChange Maintain (onWeightChange (Num 70) mount)) = Num 112"
    by blast
  with a reachable.mounted show ?thesis by simp
qed

text \<open>
  The restriction to whole kilograms in the exact reading is needed. The weight
  \<open>63.4375 - 2\<^sup>-\<^sup>4\<^sup>7\<close> is a binary64 value (it is what \<open>63.43749999999999\<close> denotes); its exact
  product with 1.6 lies just below 101.5, and the binary64 product is 101.5.
\<close>

lemma dailyGoal_at_a_rounding_boundary:
  "dailyGoal (onWeightChange (Num (63.4375 - 1 / 2 ^ 47)) mount) = Num 102 \<and>
   round_nearest ((63.4375 - 1 / 2 ^ 47) * spec_multiplier Maintain) = 101"
  by code_simp

subsection \<open>The daily total\<close>

text \<open>The second invariant: the stored total is the sum over the history.\<close>

lemma reachable_dailyTotal:
  "reachable s \<Longrightarrow> dailyTotal s = js_sum (map totalProtein (mealHistory s))"
proof (induction rule: reachable.induct)
  case mounted
  show ?case by (simp add: mount_def initial_def goalEffect_def js_sum_def)
next
  case (loaded s result now)
  then show ?case using loadend_cases[of result now s] by (auto simp: reduce_js_sum js_sum_def)
qed (auto simp: onApiKeyChange_def onWeightChange_def onGoalChange_def handleFileSelect_def
      analyzeImage_def onResetClick_def resetDay_def js_sum_def split: option.splits)

text \<open>Sums of whole numbers of grams are exact as long as they stay below \<open>2\<^sup>5\<^sup>3\<close>.\<close>

lemma js_sum_exact:
  assumes "\<forall>x\<in>set xs. x \<in> \<nat>" and "a \<in> \<nat>" and "a + sum_list xs \<le> 2 ^ 53"
  shows "foldl (\<lambda>sum v. js_add sum (ToNumber v)) (Num a) (map (\<lambda>x. Number (Num x)) xs)
           = Num (a + sum_list xs)"
  using assms
proof (induction xs arbitrary: a)
  case Nil
  then show ?case by simp
next
  case (Cons x xs)
  have nn: "0 \<le> sum_list xs"
    using Cons.prems(1) by (intro sum_list_nonneg) (auto elim!: Nats_cases)
  have ax: "a + x \<in> \<nat>" using Cons.prems by (simp add: Nats_add)
  have "a + x \<le> 2 ^ 53" using Cons.prems(3) nn by simp
  with ax have "binary64 (a + x) = Num (a + x)" by (rule binary64_Nats)
  moreover have "foldl (\<lambda>sum v. js_add sum (ToNumber v)) (Num (a + x))
                   (map (\<lambda>x. Number (Num x)) xs) = Num ((a + x) + sum_list xs)"
    using Cons.prems ax by (intro Cons.IH) (auto simp: add.assoc)
  ultimately show ?case by (simp add: add.assoc)
qed

lemma js_add_nonneg:
  "js_le (Num 0) a \<Longrightarrow> js_le (Num 0) b \<Longrightarrow> js_le (Num 0) (js_add a b)"
  by (cases a; cases b) (simp_all add: binary64_nonneg)

lemma js_sum_nonneg:
  assumes "\<forall>v\<in>set vs. js_le (Num 0) (ToNumber v)" and "js_le (Num 0) a"
  shows "js_le (Num 0) (foldl (\<lambda>sum v. js_add sum (ToNumber v)) a vs)"
  using assms by (induction vs arbitrary: a) (simp_all add: js_add_nonneg)

lemma js_add_finite_not_NaN: "a \<noteq> NaN \<Longrightarrow> js_add a (Num y) \<noteq> NaN"
  by (cases a) simp_all

lemma js_sum_not_NaN:
  assumes "\<forall>v\<in>set vs. \<exists>t. ToNumber v = Num t" and "a \<noteq> NaN"
  shows "foldl (\<lambda>sum v. js_add sum (ToNumber v)) a vs \<noteq> NaN"
  using assms
proof (induction vs arbitrary: a)
  case Nil
  then show ?case by simp
next
  case (Cons v vs)
  from Cons.prems(1) obtain t where t: "ToNumber v = Num t" by auto
  have "js_add a (ToNumber v) \<noteq> NaN" unfolding t using Cons.prems(2) by (rule js_add_finite_not_NaN)
  with Cons show ?case by simp
qed

text \<open>
  C3. In every reachable state, whatever the sequence of meals in \<open>mealHistory\<close>,
  \<open>dailyTotal\<close> equals the sum of each meal's \<open>totalProtein\<close> (added from left to right in the
  program's arithmetic, where a missing value counts as \<open>NaN\<close>; it is the exact sum when the
  values are whole numbers of grams);
  this holds after every append and after \<open>resetDay\<close>, and immediately after \<open>resetDay\<close> the
  history is empty and \<open>dailyTotal\<close> is 0.
\<close>

theorem dailyTotal_is_sum:
  assumes "reachable s"
  shows "dailyTotal s = js_sum (map totalProtein (mealHistory s)) \<and>
         (\<forall>xs. map totalProtein (mealHistory s) = map (\<lambda>x. Number (Num x)) xs \<and>
               (\<forall>x\<in>set xs. x \<in> \<nat>) \<and> sum_list xs \<le> 2 ^ 53 \<longrightarrow>
            dailyTotal s = Num (sum_list xs)) \<and>
         mealHistory (loadend (ResponseOk fs tp) now s)
           = mealHistory s @ [\<lparr>foods = fs, totalProtein = tp, timestamp = now\<rparr>] \<and>
         dailyTotal (loadend (ResponseOk fs tp) now s)
           = js_sum (map totalProtein (mealHistory s) @ [tp]) \<and>
         mealHistory (onResetClick s) = [] \<and>
         dailyTotal (onResetClick s) = Num 0"
proof -
  have a: "dailyTotal s = js_sum (map totalProtein (mealHistory s))"
    using assms by (rule reachable_dailyTotal)
  have b: "dailyTotal s = Num (sum_list xs)"
    if "map totalProtein (mealHistory s) = map (\<lambda>x. Number (Num x)) xs"
      and "\<forall>x\<in>set xs. x \<in> \<nat>" and "sum_list xs \<le> 2 ^ 53" for xs
    using that(2,3) js_sum_exact[of xs 0] unfolding a js_sum_def that(1) by simp
  have c: "mealHistory (loadend (ResponseOk fs tp) now s)
             = mealHistory s @ [\<lparr>foods = fs, totalProtein = tp, timestamp = now\<rparr>]"
    by (simp add: loadend_def onloadend_def Let_def)
  have "reachable (loadend (ResponseOk fs tp) now s)" using assms by (rule reachable.loaded)
  from reachable_dailyTotal[OF this]
  have d: "dailyTotal (loadend (ResponseOk fs tp) now s)
             = js_sum (map totalProtein (mealHistory s) @ [tp])"
    unfolding c by simp
  have e: "mealHistory (onResetClick s) = []" "dailyTotal (onResetClick s) = Num 0"
    by (simp_all add: onResetClick_def resetDay_def)
  from a b c d e show ?thesis by blast
qed

theorem dailyTotal_is_sum_witness:
  "reachable (loadend (ResponseOk [] (Number (Num 49))) ''12:00'' mount) \<and>
   dailyTotal (loadend (ResponseOk [] (Number (Num 49))) ''12:00'' mount) = Num 49 \<and>
   dailyTotal (loadend (ResponseOk [] (Number (Num 31))) ''19:30''
                 (loadend (ResponseOk [] (Number (Num 49))) ''12:00'' mount)) = Num 80 \<and>
   dailyTotal (onResetClick (loadend (ResponseOk [] (Number (Num 49))) ''12:00'' mount)) = Num 0"
proof -
  let ?s = "loadend (ResponseOk [] (Number (Num 49))) ''12:00'' mount"
  have r: "reachable ?s" by (intro reachable.loaded reachable.mounted)
  have m: "map totalProtein (mealHistory ?s) = map (\<lambda>x. Number (Num x)) [49]"
    by (simp add: loadend_def onloadend_def Let_def mount_def initial_def goalEffect_def)
  have n: "\<forall>x\<in>set [49::rat]. x \<in> \<nat>" by (metis Nats_numeral empty_iff empty_set set_ConsD)
  have "sum_list [49::rat] \<le> 2 ^ 53" by simp
  with dailyTotal_is_sum[OF r, of "[]" "Number (Num 31)" "''19:30''"] m n
  have "dailyTotal ?s = Num (sum_list [49])" by blast
  then have t: "dailyTotal ?s = Num 49" by simp
  have "dailyTotal (loadend (ResponseOk [] (Number (Num 31))) ''19:30'' ?s)
          = js_sum (map totalProtein (mealHistory ?s) @ [Number (Num 31)])"
    using dailyTotal_is_sum[OF r, of "[]" "Number (Num 31)" "''19:30''"] by blast
  also have "\<dots> = Num 80" unfolding m by code_simp
  finally have u: "dailyTotal (loadend (ResponseOk [] (Number (Num 31))) ''19:30'' ?s) = Num 80" .
  have "dailyTotal (onResetClick ?s) = Num 0"
    using dailyTotal_is_sum[OF r, of "[]" "Number (Num 31)" "''19:30''"] by blast
  with r t u show ?thesis by simp
qed

subsection \<open>The progress percentage\<close>

lemma percent_of_nonneg:
  assumes "js_le (Num 0) r"
  shows "in_percent_range (Math_min (js_mul r (Num 100)) (Num 100))"
proof (cases r)
  case (Num x)
  with assms have "0 \<le> x * 100" by simp
  then have "js_le (Num 0) (binary64 (x * 100))" by (rule binary64_nonneg)
  then show ?thesis unfolding Num by (cases "binary64 (x * 100)") (simp_all add: in_percent_range_def)
qed (use assms in \<open>simp_all add: in_percent_range_def\<close>)

lemma progress_in_range:
  assumes "dailyGoal s = Num g" and "0 < g" and "js_le (Num 0) (dailyTotal s)"
  shows "in_percent_range (progressPercentage s)"
proof -
  have "js_le (Num 0) (js_div (dailyTotal s) (Num g))"
  proof (cases "dailyTotal s")
    case (Num t)
    with assms have "0 \<le> t / g" by simp
    then have "js_le (Num 0) (binary64 (t / g))" by (rule binary64_nonneg)
    then show ?thesis using assms(2) unfolding Num by simp
  qed (use assms in simp_all)
  then show ?thesis unfolding progressPercentage_def assms(1) by (rule percent_of_nonneg)
qed

lemma dailyGoal_positive:
  assumes "reachable s" and "weight s = Num w" and "30 \<le> w" and "w \<le> 200"
  shows "\<exists>g. dailyGoal s = Num g \<and> 0 < g"
proof -
  let ?p = "round64 (w * round64 (spec_multiplier (goal s)))"
  have "29 < ?p" using assms(3,4) by (rule product_bounds(1))
  then have "(0::int) < \<lfloor>?p + 1 / 2\<rfloor>" by (simp add: less_floor_iff)
  then have "(0::rat) < of_int \<lfloor>?p + 1 / 2\<rfloor>" by simp
  moreover have "dailyGoal s = Num (of_int \<lfloor>?p + 1 / 2\<rfloor>)"
    unfolding reachable_dailyGoal[OF assms(1)] assms(2) product_finite[OF assms(3,4)] by simp
  ultimately show ?thesis by blast
qed

lemma dailyTotal_nonneg:
  assumes "reachable s" and "\<forall>m\<in>set (mealHistory s). js_le (Num 0) (ToNumber (totalProtein m))"
  shows "js_le (Num 0) (dailyTotal s)"
  unfolding reachable_dailyTotal[OF assms(1)] js_sum_def
  using assms(2) by (intro js_sum_nonneg) auto

text \<open>
  Two reachable states in which the percentage is outside the interval. In the first the
  weight field has been cleared (or 0 typed into it) before any meal: the goal and the total
  are both 0 and the percentage is \<open>NaN\<close>. In the second the upstream model has reported a
  negative \<open>totalProtein\<close>: the percentage is negative.
\<close>

theorem progress_out_of_range_counterexample:
  "reachable (onWeightChange (Num 0) mount) \<and>
   dailyGoal (onWeightChange (Num 0) mount) = Num 0 \<and>
   dailyTotal (onWeightChange (Num 0) mount) = Num 0 \<and>
   progressPercentage (onWeightChange (Num 0) mount) = NaN \<and>
   \<not> in_percent_range (progressPercentage (onWeightChange (Num 0) mount)) \<and>
   reachable (loadend (ResponseOk [] (Number (Num (- 5)))) ''12:00'' mount) \<and>
   dailyGoal (loadend (ResponseOk [] (Number (Num (- 5)))) ''12:00'' mount) = Num 112 \<and>
   dailyTotal (loadend (ResponseOk [] (Number (Num (- 5)))) ''12:00'' mount) = Num (- 5) \<and>
   \<not> in_percent_range
       (progressPercentage (loadend (ResponseOk [] (Number (Num (- 5)))) ''12:00'' mount))"
proof -
  have "reachable (onWeightChange (Num 0) mount)" by (intro reachable.weight reachable.mounted)
  moreover have "dailyGoal (onWeightChange (Num 0) mount) = Num 0" by code_simp
  moreover have "dailyTotal (onWeightChange (Num 0) mount) = Num 0" by code_simp
  moreover have "progressPercentage (onWeightChange (Num 0) mount) = NaN" by code_simp
  moreover have "reachable (loadend (ResponseOk [] (Number (Num (- 5)))) ''12:00'' mount)"
    by (intro reachable.loaded reachable.mounted)
  moreover have "dailyGoal (loadend (ResponseOk [] (Number (Num (- 5)))) ''12:00'' mount) = Num 112"
    by code_simp
  moreover have
    "dailyTotal (loadend (ResponseOk [] (Number (Num (- 5)))) ''12:00'' mount) = Num (- 5)"
    by code_simp
  moreover have
    "\<not> in_percent_range
        (progressPercentage (loadend (ResponseOk [] (Number (Num (- 5)))) ''12:00'' mount))"
    by code_simp
  ultimately show ?thesis by (simp add: in_percent_range_def)
qed

text \<open>
  C4, as amended. In every state in which \<open>dailyGoal\<close> is a finite number greater than 0 and
  \<open>dailyTotal\<close> is a number that is at least 0 (\<open>Infinity\<close> included, \<open>NaN\<close> not), and so in
  every reachable state whose weight is a number in the interval from 30 to 200 and whose
  meals all have a \<open>totalProtein\<close> of numeric value at least 0,
  \<open>progressPercentage = min(dailyTotal / dailyGoal \<times> 100, 100)\<close> lies in the interval from
  0 to 100, no matter how far \<open>dailyTotal\<close> exceeds \<open>dailyGoal\<close>.
\<close>

theorem progressPercentage_range:
  "(\<forall>g. dailyGoal s = Num g \<and> 0 < g \<and> js_le (Num 0) (dailyTotal s) \<longrightarrow>
        in_percent_range (progressPercentage s)) \<and>
   (reachable s \<and> (\<exists>w. weight s = Num w \<and> 30 \<le> w \<and> w \<le> 200) \<and>
    (\<forall>m\<in>set (mealHistory s). js_le (Num 0) (ToNumber (totalProtein m))) \<longrightarrow>
      in_percent_range (progressPercentage s))"
proof -
  have a: "in_percent_range (progressPercentage s)"
    if "dailyGoal s = Num g" "0 < g" "js_le (Num 0) (dailyTotal s)" for g
    using that by (rule progress_in_range)
  have "in_percent_range (progressPercentage s)"
    if r: "reachable s" and w: "weight s = Num w" "30 \<le> w" "w \<le> 200"
      and m: "\<forall>m\<in>set (mealHistory s). js_le (Num 0) (ToNumber (totalProtein m))" for w
  proof -
    from dailyGoal_positive[OF r w] obtain g where "dailyGoal s = Num g" "0 < g" by blast
    then show ?thesis using dailyTotal_nonneg[OF r m] by (rule a)
  qed
  with a show ?thesis by blast
qed

theorem progressPercentage_range_witness:
  "reachable (loadend (ResponseOk [] (Number (Num 490))) ''12:00'' mount) \<and>
   dailyGoal (loadend (ResponseOk [] (Number (Num 490))) ''12:00'' mount) = Num 112 \<and>
   dailyTotal (loadend (ResponseOk [] (Number (Num 490))) ''12:00'' mount) = Num 490 \<and>
   progressPercentage (loadend (ResponseOk [] (Number (Num 490))) ''12:00'' mount) = Num 100 \<and>
   in_percent_range (progressPercentage (loadend (ResponseOk [] (Number (Num 490))) ''12:00'' mount))"
proof -
  let ?s = "loadend (ResponseOk [] (Number (Num 490))) ''12:00'' mount"
  have r: "reachable ?s" by (intro reachable.loaded reachable.mounted)
  have g: "dailyGoal ?s = Num 112" by code_simp
  have t: "dailyTotal ?s = Num 490" by code_simp
  have p: "progressPercentage ?s = Num 100" by code_simp
  have "js_le (Num 0) (dailyTotal ?s)" unfolding t by simp
  with progressPercentage_range[of ?s] g have "in_percent_range (progressPercentage ?s)"
    by (metis zero_less_numeral)
  with r g t p show ?thesis by simp
qed

subsection \<open>A failed submission\<close>

lemma failed_callback_changes_nothing:
  "onloadend result now s = Inl message \<Longrightarrow> loadend result now s = s"
  by (simp add: loadend_def)

text \<open>
  C7, at a failing submission. In the state \<open>ready\<close> the user submits the photo and the
  Gateway answers with status 500 and the error \<open>Incorrect API key provided\<close>. The callback
  throws that message, outside the \<open>try\<close> statement of \<open>analyzeImage\<close>: the history is the
  same sequence as before, and the \<open>error\<close> shown to the user stays empty.
\<close>

theorem gateway_failure_not_surfaced:
  "snd (analyzeImage ready) \<and>
   error (fst (analyzeImage ready)) = [] \<and>
   onloadend (ResponseNotOk (Some ''Incorrect API key provided'')) ''12:00''
       (fst (analyzeImage ready))
     = Inl ''Incorrect API key provided'' \<and>
   error (loadend (ResponseNotOk (Some ''Incorrect API key provided'')) ''12:00''
            (fst (analyzeImage ready))) = [] \<and>
   mealHistory (loadend (ResponseNotOk (Some ''Incorrect API key provided'')) ''12:00''
                  (fst (analyzeImage ready))) = mealHistory ready"
  by (simp add: ready_def analyzeImage_def handleFileSelect_def onApiKeyChange_def
        loadend_def onloadend_def falsy_def)

subsection \<open>Reset\<close>

text \<open>
  C8. For every state, \<open>resetDay\<close> sets \<open>mealHistory\<close> to the empty sequence and clears the
  pending image selection and the preview (and the current analysis), and leaves the
  profile fields \<open>weight\<close> and \<open>goal\<close> and the derived \<open>dailyGoal\<close> unchanged; the same holds
  once the effects that follow the click have run.
\<close>

theorem resetDay_frame:
  "mealHistory (resetDay s) = [] \<and> selectedFile (resetDay s) = None \<and>
   previewUrl (resetDay s) = [] \<and> currentAnalysis (resetDay s) = None \<and>
   weight (resetDay s) = weight s \<and> goal (resetDay s) = goal s \<and>
   dailyGoal (resetDay s) = dailyGoal s \<and>
   mealHistory (onResetClick s) = [] \<and> selectedFile (onResetClick s) = None \<and>
   previewUrl (onResetClick s) = [] \<and> currentAnalysis (onResetClick s) = None \<and>
   weight (onResetClick s) = weight s \<and> goal (onResetClick s) = goal s \<and>
   dailyGoal (onResetClick s) = dailyGoal s"
  by (simp add: resetDay_def onResetClick_def totalEffect_def)

subsection \<open>The remaining amount\<close>

lemma Math_max_zero: "v \<noteq> NaN \<Longrightarrow> js_le (Num 0) (Math_max v (Num 0))"
  by (cases v) simp_all

lemma js_sub_finite_not_NaN: "t \<noteq> NaN \<Longrightarrow> js_sub (Num g) t \<noteq> NaN"
  by (cases t) simp_all

text \<open>
  A reachable state in which \<open>remaining\<close> is not at least 0. The Gateway has answered with
  status 200 and the body \<open>{"foods":[]}\<close>, which has no \<open>totalProtein\<close>: the callback stores
  the meal as it is, the total is \<open>0 + undefined = NaN\<close>, and
  \<open>Math.max(112 - NaN, 0)\<close> is \<open>NaN\<close>, for which \<open>NaN >= 0\<close> is false.
\<close>

theorem remaining_NaN_counterexample:
  "reachable (loadend (ResponseOk [] Undefined) ''12:00'' mount) \<and>
   dailyGoal (loadend (ResponseOk [] Undefined) ''12:00'' mount) = Num 112 \<and>
   dailyTotal (loadend (ResponseOk [] Undefined) ''12:00'' mount) = NaN \<and>
   remaining (loadend (ResponseOk [] Undefined) ''12:00'' mount) = NaN \<and>
   \<not> js_le (Num 0) (remaining (loadend (ResponseOk [] Undefined) ''12:00'' mount))"
proof -
  have "reachable (loadend (ResponseOk [] Undefined) ''12:00'' mount)"
    by (intro reachable.loaded reachable.mounted)
  moreover have "dailyGoal (loadend (ResponseOk [] Undefined) ''12:00'' mount) = Num 112"
    by code_simp
  moreover have "dailyTotal (loadend (ResponseOk [] Undefined) ''12:00'' mount) = NaN"
    by code_simp
  moreover have "remaining (loadend (ResponseOk [] Undefined) ''12:00'' mount) = NaN"
    by code_simp
  ultimately show ?thesis by simp
qed

text \<open>
  C9, as amended. In every state \<open>remaining = max(dailyGoal - dailyTotal, 0)\<close> in the
  program's arithmetic. Whenever the difference \<open>dailyGoal - dailyTotal\<close> is not \<open>NaN\<close>,
  \<open>remaining\<close> is at least 0. When \<open>dailyGoal\<close> and \<open>dailyTotal\<close> are both finite numbers,
  \<open>remaining\<close> is at least 0, it is 0 whenever \<open>dailyTotal\<close> has reached or exceeded
  \<open>dailyGoal\<close>, and it is the exact difference when that is a whole number of at most
  \<open>2\<^sup>5\<^sup>3\<close> (as it is for whole numbers of grams). In every reachable state whose weight is a
  number in the interval from 30 to 200 and whose meals all have a \<open>totalProtein\<close> of finite
  numeric value, \<open>remaining\<close> is at least 0.
\<close>

theorem remaining_clamped:
  "remaining s = Math_max (js_sub (dailyGoal s) (dailyTotal s)) (Num 0) \<and>
   (js_sub (dailyGoal s) (dailyTotal s) \<noteq> NaN \<longrightarrow> js_le (Num 0) (remaining s)) \<and>
   (\<forall>g t. dailyGoal s = Num g \<and> dailyTotal s = Num t \<longrightarrow>
      js_le (Num 0) (remaining s) \<and>
      (g \<le> t \<longrightarrow> remaining s = Num 0) \<and>
      (g - t \<in> \<nat> \<and> g - t \<le> 2 ^ 53 \<longrightarrow> remaining s = Num (g - t))) \<and>
   (reachable s \<and> (\<exists>w. weight s = Num w \<and> 30 \<le> w \<and> w \<le> 200) \<and>
    (\<forall>m\<in>set (mealHistory s). \<exists>t. ToNumber (totalProtein m) = Num t) \<longrightarrow>
      js_le (Num 0) (remaining s))"
proof -
  have a: "remaining s = Math_max (js_sub (dailyGoal s) (dailyTotal s)) (Num 0)"
    by (simp add: remaining_def)
  have b: "js_le (Num 0) (remaining s)" if "js_sub (dailyGoal s) (dailyTotal s) \<noteq> NaN"
    unfolding a using that by (rule Math_max_zero)
  have c: "js_le (Num 0) (remaining s)" if "dailyGoal s = Num g" "dailyTotal s = Num t" for g t
    using that by (intro b) simp
  have d: "remaining s = Num 0" if "dailyGoal s = Num g" "dailyTotal s = Num t" "g \<le> t" for g t
  proof -
    have "js_le (binary64 (g - t)) (Num 0)" using that(3) by (intro binary64_nonpos) simp
    then show ?thesis unfolding a that(1,2) by (cases "binary64 (g - t)") (simp_all add: max_def)
  qed
  have e: "remaining s = Num (g - t)"
    if "dailyGoal s = Num g" "dailyTotal s = Num t" "g - t \<in> \<nat>" "g - t \<le> 2 ^ 53" for g t
  proof -
    have "binary64 (g - t) = Num (g - t)" using that(3,4) by (rule binary64_Nats)
    moreover have "0 \<le> g - t" using that(3) by (auto elim!: Nats_cases)
    ultimately show ?thesis unfolding a that(1,2) by (simp add: max_def)
  qed
  have f: "js_le (Num 0) (remaining s)"
    if r: "reachable s" and w: "weight s = Num w" "30 \<le> w" "w \<le> 200"
      and m: "\<forall>m\<in>set (mealHistory s). \<exists>t. ToNumber (totalProtein m) = Num t" for w
  proof -
    from dailyGoal_positive[OF r w] obtain g where g: "dailyGoal s = Num g" by blast
    have "dailyTotal s \<noteq> NaN"
      unfolding reachable_dailyTotal[OF r] js_sum_def using m by (intro js_sum_not_NaN) auto
    then have "js_sub (dailyGoal s) (dailyTotal s) \<noteq> NaN"
      unfolding g by (rule js_sub_finite_not_NaN)
    then show ?thesis by (rule b)
  qed
  from a b c d e f show ?thesis by blast
qed

theorem remaining_clamped_witness:
  "remaining (loadend (ResponseOk [] (Number (Num 49))) ''12:00'' mount) = Num 63 \<and>
   remaining (loadend (ResponseOk [] (Number (Num 490))) ''12:00'' mount) = Num 0 \<and>
   js_le (Num 0) (remaining (loadend (ResponseOk [] Null) ''12:00'' mount))"
proof -
  let ?s = "loadend (ResponseOk [] (Number (Num 49))) ''12:00'' mount"
  let ?t = "loadend (ResponseOk [] (Number (Num 490))) ''12:00'' mount"
  let ?u = "loadend (ResponseOk [] Null) ''12:00'' mount"
  have s: "dailyGoal ?s = Num 112" "dailyTotal ?s = Num 49" by code_simp+
  have t: "dailyGoal ?t = Num 112" "dailyTotal ?t = Num 490" by code_simp+
  have "(63::rat) \<in> \<nat>" by (metis Nats_numeral)
  then have h: "(112::rat) - 49 \<in> \<nat>" "(112::rat) - 49 \<le> 2 ^ 53" by simp_all
  with remaining_clamped[of ?s] s have "remaining ?s = Num (112 - 49)" by blast
  then have a: "remaining ?s = Num 63" by simp
  have "(112::rat) \<le> 490" by simp
  with remaining_clamped[of ?t] t have b: "remaining ?t = Num 0" by blast
  have r: "reachable ?u" by (intro reachable.loaded reachable.mounted)
  have w: "weight ?u = Num 70" by code_simp
  have m: "\<forall>m\<in>set (mealHistory ?u). \<exists>t. ToNumber (totalProtein m) = Num t"
    by (simp add: loadend_def onloadend_def Let_def mount_def initial_def goalEffect_def)
  have "\<exists>w. weight ?u = Num w \<and> 30 \<le> w \<and> w \<le> 200" unfolding w by simp
  with remaining_clamped[of ?u] r m have "js_le (Num 0) (remaining ?u)" by blast
  with a b show ?thesis by simp
qed

subsection \<open>Overflow\<close>

text \<open>
  Numbers so large that the goal and the total are both \<open>Infinity\<close>: their quotient and
  their difference are \<open>NaN\<close>.
\<close>

lemma goal_and_total_at_overflow:
  "reachable (loadend (ResponseOk [] (Number PosInfinity)) ''12:00''
                (onGoalChange Gain (onWeightChange (Num (2 ^ 1023)) mount))) \<and>
   dailyGoal (loadend (ResponseOk [] (Number PosInfinity)) ''12:00''
                (onGoalChange Gain (onWeightChange (Num (2 ^ 1023)) mount))) = PosInfinity \<and>
   dailyTotal (loadend (ResponseOk [] (Number PosInfinity)) ''12:00''
                (onGoalChange Gain (onWeightChange (Num (2 ^ 1023)) mount))) = PosInfinity \<and>
   progressPercentage (loadend (ResponseOk [] (Number PosInfinity)) ''12:00''
                (onGoalChange Gain (onWeightChange (Num (2 ^ 1023)) mount))) = NaN \<and>
   remaining (loadend (ResponseOk [] (Number PosInfinity)) ''12:00''
                (onGoalChange Gain (onWeightChange (Num (2 ^ 1023)) mount))) = NaN"
proof -
  let ?s = "loadend (ResponseOk [] (Number PosInfinity)) ''12:00''
              (onGoalChange Gain (onWeightChange (Num (2 ^ 1023)) mount))"
  have r: "reachable ?s"
    by (intro reachable.loaded reachable.goal reachable.weight reachable.mounted)
  have "(2::rat) ^ 1023 * 2 = 2 ^ 1024" by (simp only: power_Suc2[symmetric]) simp
  then have "overflow \<le> 2 ^ 1023 * round64 (spec_multiplier Gain)"
    unfolding overflow_power by (simp only: spec_multiplier.simps round64_literals)
  then have "binary64 (2 ^ 1023 * round64 (spec_multiplier Gain)) = PosInfinity"
    by (rule binary64_overflow)
  then have "js_mul (Num (2 ^ 1023)) (multiplier Gain) = PosInfinity"
    unfolding multiplier_Num by simp
  moreover have "weight ?s = Num (2 ^ 1023)" "goal ?s = Gain"
    by (simp_all add: loadend_def onloadend_def Let_def onGoalChange_def onWeightChange_def)
  ultimately have g: "dailyGoal ?s = PosInfinity" unfolding reachable_dailyGoal[OF r] by simp
  have "map totalProtein (mealHistory ?s) = [Number PosInfinity]"
    by (simp add: loadend_def onloadend_def Let_def onGoalChange_def onWeightChange_def
          mount_def initial_def goalEffect_def)
  then have t: "dailyTotal ?s = PosInfinity" unfolding reachable_dailyTotal[OF r] js_sum_def by simp
  from r g t show ?thesis by (simp add: progressPercentage_def remaining_def)
qed

end
